theory Spec2Isabelle
  imports Main "HOL-Library.Word" "HOL-Library.Char_ord" "HOL-Library.List_Lexorder"
begin

unbundle bit_operations_syntax

section \<open>Levels and events (BoomLog.hpp, enum LEVELS and class Event)\<close>

text \<open>
  The enumeration \<open>LEVELS\<close> with its five enumerators. The enumerators' integer values
  (\<open>DBG = 1\<close>, \<open>INFO = 2\<close>, \<open>WARNING = 4\<close>, \<open>ERR = 8\<close>, \<open>CRITICAL = 16\<close>) are given by
  \<open>LEVELS_val\<close>; a C++ \<open>int\<close> is a 32-bit word, on which \<open>&\<close> is \<open>AND\<close>.
\<close>

datatype LEVELS = DBG | INFO | WARNING | ERR | CRITICAL

type_synonym cint = "32 word"

fun LEVELS_val :: "LEVELS \<Rightarrow> cint" where
  "LEVELS_val DBG = 1"
| "LEVELS_val INFO = 2"
| "LEVELS_val WARNING = 4"
| "LEVELS_val ERR = 8"
| "LEVELS_val CRITICAL = 16"

definition ALL_LEVELS :: cint where
  "ALL_LEVELS = 31"

text \<open>
  \<open>struct tm\<close> of the C library, with the fields the date format reads: seconds, minutes,
  hours, day of the month, months since January and years since 1900.
\<close>

record tm =
  tm_sec :: int
  tm_min :: int
  tm_hour :: int
  tm_mday :: int
  tm_mon :: int
  tm_year :: int

text \<open>
  Class \<open>Event\<close>. The time point is the tick count of the system clock. The members are
  listed in the order of the class.
\<close>

record Event =
  timestamp :: int
  level :: LEVELS
  msg :: string
  source :: string
  code :: string

text \<open>
  The two constructors. \<open>Event()\<close> initialises the level only: the strings are
  default-constructed (empty) and the time point is the clock's epoch. The second
  constructor's default arguments are \<open>source = ""\<close>, \<open>code = ""\<close> and
  \<open>timestamp = system_clock::now()\<close>; the clock reading is passed in by the caller.
\<close>

definition Event_default :: Event where
  "Event_default = \<lparr>timestamp = 0, level = INFO, msg = [], source = [], code = []\<rparr>"

definition Event_ctor :: "LEVELS \<Rightarrow> string \<Rightarrow> string \<Rightarrow> string \<Rightarrow> int \<Rightarrow> Event" where
  "Event_ctor lv m src cd ts = \<lparr>timestamp = ts, level = lv, msg = m, source = src, code = cd\<rparr>"

subsection \<open>The library's \<open>put_time\<close> on the conversions the date format uses\<close>

definition digit :: "nat \<Rightarrow> char" where
  "digit n = ''0123456789'' ! (n mod 10)"

fun dec_nat :: "nat \<Rightarrow> string" where
  "dec_nat n = (if n < 10 then [digit n] else dec_nat (n div 10) @ [digit n])"

declare dec_nat.simps [simp del]

definition dec :: "int \<Rightarrow> string" where
  "dec i = (if i < 0 then CHR ''-'' # dec_nat (nat (- i)) else dec_nat (nat i))"

text \<open>A number in at least two characters, padded with a zero (as \<open>%02d\<close>).\<close>

definition pad2 :: "int \<Rightarrow> string" where
  "pad2 i = (let s = dec i in if length s < 2 then CHR ''0'' # s else s)"

text \<open>
  One conversion specifier: \<open>%Y\<close> is the year as a decimal number, \<open>%m\<close> the month
  (01-12), \<open>%d\<close> the day of the month, \<open>%H\<close>, \<open>%M\<close> and \<open>%S\<close> the hour, minute and
  second, each in two digits; \<open>%%\<close> is a percent sign. The program uses no other
  conversion; any other is copied as it stands.
\<close>

definition conversion :: "char \<Rightarrow> tm \<Rightarrow> string" where
  "conversion c t =
     (if c = CHR ''Y'' then dec (tm_year t + 1900)
      else if c = CHR ''m'' then pad2 (tm_mon t + 1)
      else if c = CHR ''d'' then pad2 (tm_mday t)
      else if c = CHR ''H'' then pad2 (tm_hour t)
      else if c = CHR ''M'' then pad2 (tm_min t)
      else if c = CHR ''S'' then pad2 (tm_sec t)
      else if c = CHR ''%'' then [c]
      else [CHR ''%'', c])"

fun put_time :: "tm \<Rightarrow> string \<Rightarrow> string" where
  "put_time t [] = []"
| "put_time t [c] = [c]"
| "put_time t (c # d # fs) =
     (if c = CHR ''%'' then conversion d t @ put_time t fs else c # put_time t (d # fs))"

subsection \<open>\<open>Event::toString\<close>\<close>

text \<open>
  The string stream \<open>result\<close> is the string written so far; \<open><<\<close> appends. The conversion
  of the time point to local broken-down time (\<open>to_time_t\<close>, then \<open>localtime_s\<close>) depends
  on the time zone of the process and is the parameter \<open>localtime_s\<close>.
\<close>

definition dateFormat :: string where
  "dateFormat = ''%Y/%m/%d/%H:%M:%S - ''"

definition Event_toString :: "(int \<Rightarrow> tm) \<Rightarrow> Event \<Rightarrow> string" where
  "Event_toString localtime_s e =
     (let levelSymbol =
            (case level e of
               DBG \<Rightarrow> '' # ''
             | INFO \<Rightarrow> ''   ''
             | WARNING \<Rightarrow> '' ! ''
             | ERR \<Rightarrow> ''!! ''
             | CRITICAL \<Rightarrow> ''!!!'');
          output = localtime_s (timestamp e);
          result = levelSymbol @ put_time output dateFormat;
          result = (if code e \<noteq> [] then result @ ''['' @ code e @ ''] '' else result);
          result = result @ msg e;
          result = (if source e \<noteq> [] then result @ '' (from '' @ source e @ '')'' else result)
      in result)"

section \<open>Streams (class Stream and its derived classes)\<close>

text \<open>
  Streams are objects that the registry holds by pointer, so they live in a store: a
  pointer is an address, \<open>nullptr\<close> is address 0. An object is the base class's member
  \<open>levels\<close> with the members of its dynamic class: \<open>TextFileStream\<close> (member \<open>file\<close>),
  \<open>ConsoleStream\<close>, \<open>ArchiveStream\<close> (member \<open>events\<close>) and, from UnitTest.cpp,
  \<open>TestStream\<close> (member \<open>e\<close>).
\<close>

type_synonym ptr = nat

definition nullptr :: ptr where
  "nullptr = 0"

datatype Stream_class =
    TextFileStream string
  | ConsoleStream
  | ArchiveStream "Event list"
  | TestStream Event

record Stream =
  levels :: cint
  derived :: Stream_class

text \<open>
  The constructors. \<open>Stream()\<close> sets \<open>levels\<close> to \<open>ALL_LEVELS\<close>. The parameter of
  \<open>TextFileStream\<close>'s constructor has a default argument, which is what the member
  \<open>file\<close> holds when the stream is constructed without a file name.
\<close>

definition TextFileStream_ctor :: "string \<Rightarrow> Stream" where
  "TextFileStream_ctor fileName = \<lparr>levels = ALL_LEVELS, derived = TextFileStream fileName\<rparr>"

definition TextFileStream_fileName_default :: string where
  "TextFileStream_fileName_default = ''Log.txt''"

definition TextFileStream_ctor_default :: Stream where
  "TextFileStream_ctor_default = TextFileStream_ctor TextFileStream_fileName_default"

definition ConsoleStream_ctor :: Stream where
  "ConsoleStream_ctor = \<lparr>levels = ALL_LEVELS, derived = ConsoleStream\<rparr>"

definition ArchiveStream_ctor :: Stream where
  "ArchiveStream_ctor = \<lparr>levels = ALL_LEVELS, derived = ArchiveStream []\<rparr>"

definition TestStream_ctor :: Stream where
  "TestStream_ctor = \<lparr>levels = ALL_LEVELS, derived = TestStream Event_default\<rparr>"

subsection \<open>The registry's container\<close>

text \<open>
  \<open>std::map<std::string, Stream*>\<close>: the entries in ascending order of their keys
  (strings compare lexicographically, characters as unsigned bytes). \<open>map_find\<close> is
  \<open>find\<close> (no entry is \<open>end()\<close>), \<open>map_assign\<close> is \<open>m[k] = v\<close> and \<open>map_erase\<close> is
  \<open>erase(k)\<close>.
\<close>

definition map_find :: "string \<Rightarrow> (string \<times> ptr) list \<Rightarrow> ptr option" where
  "map_find k m = map_of m k"

fun map_assign :: "string \<Rightarrow> ptr \<Rightarrow> (string \<times> ptr) list \<Rightarrow> (string \<times> ptr) list" where
  "map_assign k v [] = [(k, v)]"
| "map_assign k v (x # xs) =
     (if k < fst x then (k, v) # x # xs
      else if k = fst x then (k, v) # xs
      else x # map_assign k v xs)"

definition map_erase :: "string \<Rightarrow> (string \<times> ptr) list \<Rightarrow> (string \<times> ptr) list" where
  "map_erase k m = filter (\<lambda>x. fst x \<noteq> k) m"

record Log =
  streams :: "(string \<times> ptr) list"

subsection \<open>The state of the process\<close>

text \<open>
  What the program reads and writes: the static members \<open>Log::instance\<close> (\<open>None\<close> is
  \<open>nullptr\<close>) and \<open>Log::showDebug\<close>; the store of stream objects with the next free
  address; the file system (the contents of the files that exist, the paths that cannot
  be opened for writing, and the paths that are open); and what was written to
  \<open>std::cout\<close>. The field \<open>trace\<close> is not data of the program: it records, in order,
  every entry into \<open>Stream::call\<close> and into a \<open>handle\<close>, so that "the handler is
  invoked" can be stated.
\<close>

datatype observation = Called ptr Event | Handled ptr Event

record World =
  Log_instance :: "Log option"
  showDebug :: bool
  heap :: "ptr \<rightharpoonup> Stream"
  brk :: ptr
  files :: "string \<rightharpoonup> string"
  unwritable :: "string set"
  opened :: "string list"
  cout :: string
  trace :: "observation list"

definition initial :: "(string \<rightharpoonup> string) \<Rightarrow> string set \<Rightarrow> World" where
  "initial fs un =
     \<lparr>Log_instance = None, showDebug = False, heap = Map.empty, brk = 1,
      files = fs, unwritable = un, opened = [], cout = [], trace = []\<rparr>"

text \<open>Dereferencing a null or dangling pointer is undefined behaviour: an error.\<close>

datatype error = InvalidPointer

text \<open>\<open>new\<close> places the object at a fresh address; \<open>delete\<close> of \<open>nullptr\<close> does nothing.\<close>

definition new_Stream :: "Stream \<Rightarrow> World \<Rightarrow> ptr \<times> World" where
  "new_Stream s w = (brk w, w\<lparr>heap := (heap w)(brk w \<mapsto> s), brk := Suc (brk w)\<rparr>)"

definition delete_Stream :: "ptr \<Rightarrow> World \<Rightarrow> error + World" where
  "delete_Stream p w =
     (if p = nullptr then Inr w
      else case heap w p of
             None \<Rightarrow> Inl InvalidPointer
           | Some s \<Rightarrow> Inr (w\<lparr>heap := (heap w)(p := None)\<rparr>))"

subsection \<open>\<open>std::fstream\<close> in the mode \<open>app | out\<close>\<close>

text \<open>
  Opening fails (and \<open>is_open\<close> is false) on a path that cannot be opened for writing;
  otherwise the file is created if it does not exist and is never truncated. Every
  write goes to the end of the file. Writing to and closing a stream that is not open
  change nothing (the stream's fail bit is set; no exception is enabled).
\<close>

record fstream =
  path :: string
  is_open :: bool

definition fstream_open :: "string \<Rightarrow> World \<Rightarrow> fstream \<times> World" where
  "fstream_open p w =
     (if p \<in> unwritable w then (\<lparr>path = p, is_open = False\<rparr>, w)
      else (\<lparr>path = p, is_open = True\<rparr>,
            w\<lparr>files := (files w)(p \<mapsto> (case files w p of None \<Rightarrow> [] | Some c \<Rightarrow> c)),
              opened := p # opened w\<rparr>))"

definition fstream_write :: "fstream \<Rightarrow> string \<Rightarrow> World \<Rightarrow> World" where
  "fstream_write f s w =
     (if is_open f
      then w\<lparr>files := (files w)(path f \<mapsto> (case files w (path f) of None \<Rightarrow> s | Some c \<Rightarrow> c @ s))\<rparr>
      else w)"

definition fstream_close :: "fstream \<Rightarrow> World \<Rightarrow> World" where
  "fstream_close f w = (if is_open f then w\<lparr>opened := remove1 (path f) (opened w)\<rparr> else w)"

subsection \<open>\<open>handle\<close>, \<open>call\<close> and \<open>setLevels\<close>\<close>

definition TextFileStream_handle :: "(int \<Rightarrow> tm) \<Rightarrow> string \<Rightarrow> Event \<Rightarrow> World \<Rightarrow> World" where
  "TextFileStream_handle localtime_s file event w =
     (let (f, w) = fstream_open file w;
          w = (if is_open f
               then (let m = Event_toString localtime_s event in fstream_write f m w)
               else w)
      in fstream_close f w)"

definition ConsoleStream_handle :: "(int \<Rightarrow> tm) \<Rightarrow> Event \<Rightarrow> World \<Rightarrow> World" where
  "ConsoleStream_handle localtime_s event w = w\<lparr>cout := cout w @ Event_toString localtime_s event\<rparr>"

definition ArchiveStream_handle :: "ptr \<Rightarrow> Stream \<Rightarrow> Event list \<Rightarrow> Event \<Rightarrow> World \<Rightarrow> World" where
  "ArchiveStream_handle this s events event w =
     w\<lparr>heap := (heap w)(this \<mapsto> s\<lparr>derived := ArchiveStream (events @ [event])\<rparr>)\<rparr>"

definition TestStream_handle :: "ptr \<Rightarrow> Stream \<Rightarrow> Event \<Rightarrow> World \<Rightarrow> World" where
  "TestStream_handle this s event w =
     w\<lparr>heap := (heap w)(this \<mapsto> s\<lparr>derived := TestStream event\<rparr>)\<rparr>"

text \<open>The virtual call \<open>handle(event)\<close> on the object \<open>s\<close> at address \<open>this\<close>.\<close>

definition handle :: "(int \<Rightarrow> tm) \<Rightarrow> ptr \<Rightarrow> Stream \<Rightarrow> Event \<Rightarrow> World \<Rightarrow> World" where
  "handle localtime_s this s event w =
     (let w = w\<lparr>trace := trace w @ [Handled this event]\<rparr>
      in case derived s of
           TextFileStream file \<Rightarrow> TextFileStream_handle localtime_s file event w
         | ConsoleStream \<Rightarrow> ConsoleStream_handle localtime_s event w
         | ArchiveStream events \<Rightarrow> ArchiveStream_handle this s events event w
         | TestStream e \<Rightarrow> TestStream_handle this s event w)"

definition Stream_call :: "(int \<Rightarrow> tm) \<Rightarrow> ptr \<Rightarrow> Event \<Rightarrow> World \<Rightarrow> error + World" where
  "Stream_call localtime_s this event w =
     (case heap w this of
        None \<Rightarrow> Inl InvalidPointer
      | Some s \<Rightarrow>
          (let w = w\<lparr>trace := trace w @ [Called this event]\<rparr>
           in if (levels s AND LEVELS_val (level event)) = LEVELS_val (level event)
              then Inr (handle localtime_s this s event w)
              else Inr w))"

definition Stream_setLevels :: "ptr \<Rightarrow> cint \<Rightarrow> World \<Rightarrow> error + World" where
  "Stream_setLevels this lvs w =
     (case heap w this of
        None \<Rightarrow> Inl InvalidPointer
      | Some s \<Rightarrow> Inr (w\<lparr>heap := (heap w)(this \<mapsto> s\<lparr>levels := lvs\<rparr>)\<rparr>))"

section \<open>The registry (class Log)\<close>

text \<open>The member \<open>streams\<close> read and written through the pointer \<open>instance\<close>.\<close>

definition inst_streams :: "World \<Rightarrow> (string \<times> ptr) list" where
  "inst_streams w = (case Log_instance w of None \<Rightarrow> [] | Some inst \<Rightarrow> streams inst)"

definition set_inst_streams :: "(string \<times> ptr) list \<Rightarrow> World \<Rightarrow> World" where
  "set_inst_streams m w =
     (case Log_instance w of
        None \<Rightarrow> w
      | Some inst \<Rightarrow> w\<lparr>Log_instance := Some (inst\<lparr>streams := m\<rparr>)\<rparr>)"

text \<open>
  \<open>getInstance\<close> creates the singleton on the first call and registers the two default
  streams through \<open>addStream\<close>. Inside that branch \<open>instance\<close> is already set, so the
  nested \<open>addStream\<close> finds it and only assigns: \<open>streams_assign\<close> is that assignment,
  \<open>inst->streams[name] = stream\<close>.
\<close>

definition streams_assign :: "string \<Rightarrow> ptr \<Rightarrow> World \<Rightarrow> World" where
  "streams_assign name stream w = set_inst_streams (map_assign name stream (inst_streams w)) w"

definition Log_getInstance :: "World \<Rightarrow> World" where
  "Log_getInstance w =
     (case Log_instance w of
        Some inst \<Rightarrow> w
      | None \<Rightarrow>
          (let w = w\<lparr>Log_instance := Some \<lparr>streams = []\<rparr>\<rparr>;
               (p, w) = new_Stream (TextFileStream_ctor ''log.txt'') w;
               w = streams_assign ''defaultTextFile'' p w;
               (p, w) = new_Stream ConsoleStream_ctor w;
               w = streams_assign ''defaultConsole'' p w
           in w))"

definition Log_getStream :: "string \<Rightarrow> World \<Rightarrow> ptr \<times> World" where
  "Log_getStream name w =
     (let result = nullptr;
          w = Log_getInstance w;
          found = map_find name (inst_streams w);
          result = (case found of None \<Rightarrow> result | Some second \<Rightarrow> second)
      in (result, w))"

definition Log_addStream :: "string \<Rightarrow> ptr \<Rightarrow> World \<Rightarrow> World" where
  "Log_addStream name stream w = (let w = Log_getInstance w in streams_assign name stream w)"

definition Log_removeStream :: "string \<Rightarrow> World \<Rightarrow> ptr \<times> World" where
  "Log_removeStream name w =
     (let w = Log_getInstance w;
          (result, w) = Log_getStream name w;
          w = (if result \<noteq> nullptr then set_inst_streams (map_erase name (inst_streams w)) w else w)
      in (result, w))"

definition Log_forceDebug :: "bool \<Rightarrow> World \<Rightarrow> World" where
  "Log_forceDebug shw w = w\<lparr>showDebug := shw\<rparr>"

text \<open>The loop \<open>for (auto s : inst->streams) s.second->call(e)\<close>.\<close>

fun for_streams :: "(int \<Rightarrow> tm) \<Rightarrow> (string \<times> ptr) list \<Rightarrow> Event \<Rightarrow> World \<Rightarrow> error + World" where
  "for_streams localtime_s [] e w = Inr w"
| "for_streams localtime_s (s # ss) e w =
     (case Stream_call localtime_s (snd s) e w of
        Inl err \<Rightarrow> Inl err
      | Inr w \<Rightarrow> for_streams localtime_s ss e w)"

text \<open>
  \<open>Log::log\<close>. \<open>SHOW_DEBUG\<close> says whether the macro of that name is defined (a debug
  build); \<open>now\<close> is the reading of the system clock that the event's constructor takes.
  The default arguments \<open>source = ""\<close> and \<open>code = ""\<close> are empty strings passed by the
  caller. The five functions after it are the wrappers with a fixed level.
\<close>

definition Log_log ::
  "bool \<Rightarrow> (int \<Rightarrow> tm) \<Rightarrow> int \<Rightarrow> LEVELS \<Rightarrow> string \<Rightarrow> string \<Rightarrow> string \<Rightarrow> World \<Rightarrow> error + World" where
  "Log_log SHOW_DEBUG localtime_s now lv m src cd w =
     (let debugVisible = showDebug w;
          debugVisible = (if SHOW_DEBUG then True else debugVisible)
      in if lv \<noteq> DBG \<or> debugVisible
         then (let w = Log_getInstance w;
                   e = Event_ctor lv m src cd now
               in for_streams localtime_s (inst_streams w) e w)
         else Inr w)"

definition Log_debug ::
  "bool \<Rightarrow> (int \<Rightarrow> tm) \<Rightarrow> int \<Rightarrow> string \<Rightarrow> string \<Rightarrow> string \<Rightarrow> World \<Rightarrow> error + World" where
  "Log_debug SHOW_DEBUG localtime_s now m src cd w = Log_log SHOW_DEBUG localtime_s now DBG m src cd w"

definition Log_info ::
  "bool \<Rightarrow> (int \<Rightarrow> tm) \<Rightarrow> int \<Rightarrow> string \<Rightarrow> string \<Rightarrow> string \<Rightarrow> World \<Rightarrow> error + World" where
  "Log_info SHOW_DEBUG localtime_s now m src cd w = Log_log SHOW_DEBUG localtime_s now INFO m src cd w"

definition Log_warning ::
  "bool \<Rightarrow> (int \<Rightarrow> tm) \<Rightarrow> int \<Rightarrow> string \<Rightarrow> string \<Rightarrow> string \<Rightarrow> World \<Rightarrow> error + World" where
  "Log_warning SHOW_DEBUG localtime_s now m src cd w = Log_log SHOW_DEBUG localtime_s now WARNING m src cd w"

definition Log_error ::
  "bool \<Rightarrow> (int \<Rightarrow> tm) \<Rightarrow> int \<Rightarrow> string \<Rightarrow> string \<Rightarrow> string \<Rightarrow> World \<Rightarrow> error + World" where
  "Log_error SHOW_DEBUG localtime_s now m src cd w = Log_log SHOW_DEBUG localtime_s now ERR m src cd w"

definition Log_critical ::
  "bool \<Rightarrow> (int \<Rightarrow> tm) \<Rightarrow> int \<Rightarrow> string \<Rightarrow> string \<Rightarrow> string \<Rightarrow> World \<Rightarrow> error + World" where
  "Log_critical SHOW_DEBUG localtime_s now m src cd w = Log_log SHOW_DEBUG localtime_s now CRITICAL m src cd w"

subsection \<open>Programs over the interface\<close>

text \<open>
  What a client can do: the static functions of \<open>Log\<close>, and creating, configuring and
  deleting stream objects. A run performs the operations in order and stops at the
  first undefined behaviour.
\<close>

datatype op =
    AddStream string ptr
  | RemoveStream string
  | GetStream string
  | ForceDebug bool
  | LogEvent LEVELS string string string int
  | NewStream Stream
  | SetLevels ptr cint
  | Delete ptr

fun exec :: "bool \<Rightarrow> (int \<Rightarrow> tm) \<Rightarrow> op \<Rightarrow> World \<Rightarrow> error + World" where
  "exec sd lt (AddStream name p) w = Inr (Log_addStream name p w)"
| "exec sd lt (RemoveStream name) w = Inr (snd (Log_removeStream name w))"
| "exec sd lt (GetStream name) w = Inr (snd (Log_getStream name w))"
| "exec sd lt (ForceDebug b) w = Inr (Log_forceDebug b w)"
| "exec sd lt (LogEvent lv m src cd now) w = Log_log sd lt now lv m src cd w"
| "exec sd lt (NewStream s) w = Inr (snd (new_Stream s w))"
| "exec sd lt (SetLevels p lvs) w = Stream_setLevels p lvs w"
| "exec sd lt (Delete p) w = delete_Stream p w"

fun run :: "bool \<Rightarrow> (int \<Rightarrow> tm) \<Rightarrow> op list \<Rightarrow> World \<Rightarrow> error + World" where
  "run sd lt [] w = Inr w"
| "run sd lt (x # xs) w =
     (case exec sd lt x w of
        Inl err \<Rightarrow> Inl err
      | Inr w \<Rightarrow> run sd lt xs w)"

section \<open>Notions of the specification, for the statements\<close>

text \<open>
  The specification's table of level symbols, its layout \<open>YYYY/MM/DD/HH:MM:SS - \<close> of the
  time stamp (for a broken-down time of the calendar with a year of four digits), and
  its two optional segments.
\<close>

definition symbol_of :: "LEVELS \<Rightarrow> string" where
  "symbol_of lv =
     (if lv = DBG then '' # ''
      else if lv = INFO then ''   ''
      else if lv = WARNING then '' ! ''
      else if lv = ERR then ''!! ''
      else ''!!!'')"

definition two_digits :: "int \<Rightarrow> string" where
  "two_digits i = [digit (nat i div 10), digit (nat i)]"

definition four_digits :: "int \<Rightarrow> string" where
  "four_digits i = [digit (nat i div 1000), digit (nat i div 100), digit (nat i div 10), digit (nat i)]"

definition stamp :: "tm \<Rightarrow> string" where
  "stamp t =
     four_digits (tm_year t + 1900) @ ''/'' @ two_digits (tm_mon t + 1) @ ''/'' @
     two_digits (tm_mday t) @ ''/'' @ two_digits (tm_hour t) @ '':'' @
     two_digits (tm_min t) @ '':'' @ two_digits (tm_sec t) @ '' - ''"

definition calendar_tm :: "tm \<Rightarrow> bool" where
  "calendar_tm t \<longleftrightarrow>
     1000 \<le> tm_year t + 1900 \<and> tm_year t + 1900 \<le> 9999 \<and>
     0 \<le> tm_mon t \<and> tm_mon t \<le> 11 \<and> 1 \<le> tm_mday t \<and> tm_mday t \<le> 31 \<and>
     0 \<le> tm_hour t \<and> tm_hour t \<le> 23 \<and> 0 \<le> tm_min t \<and> tm_min t \<le> 59 \<and>
     0 \<le> tm_sec t \<and> tm_sec t \<le> 60"

definition code_segment :: "string \<Rightarrow> string" where
  "code_segment c = (if c = [] then [] else ''['' @ c @ ''] '')"

definition source_segment :: "string \<Rightarrow> string" where
  "source_segment s = (if s = [] then [] else '' (from '' @ s @ '')'')"

definition header :: "(int \<Rightarrow> tm) \<Rightarrow> Event \<Rightarrow> string" where
  "header lt e = symbol_of (level e) @ put_time (lt (timestamp e)) dateFormat"

text \<open>Noon of 1 January 2000 as a broken-down time, the time stamp of the unit test.\<close>

definition noon_2000 :: tm where
  "noon_2000 = \<lparr>tm_sec = 0, tm_min = 0, tm_hour = 12, tm_mday = 1, tm_mon = 0, tm_year = 100\<rparr>"

text \<open>The position of a level's bit: \<open>LEVELS_val lv\<close> is 2 to that power.\<close>

definition LEVELS_bit :: "LEVELS \<Rightarrow> nat" where
  "LEVELS_bit lv =
     (if lv = DBG then 0 else if lv = INFO then 1 else if lv = WARNING then 2
      else if lv = ERR then 3 else 4)"

text \<open>
  The registry's invariant: the names stand in strictly ascending order (so no name stands
  twice). A mask accepts a level when \<open>(mask & level) == level\<close>. \<open>notified w e m\<close> is what
  offering the event \<open>e\<close> once to every entry of \<open>m\<close>, in order, adds to the trace: a call,
  and a handling where the entry's mask accepts the level of \<open>e\<close>.
\<close>

definition names_ordered :: "(string \<times> ptr) list \<Rightarrow> bool" where
  "names_ordered m \<longleftrightarrow> sorted_wrt (<) (map fst m)"

definition accepts :: "cint \<Rightarrow> LEVELS \<Rightarrow> bool" where
  "accepts lvs lv \<longleftrightarrow> (lvs AND LEVELS_val lv) = LEVELS_val lv"

definition mask_of :: "World \<Rightarrow> ptr \<Rightarrow> cint option" where
  "mask_of w p = map_option levels (heap w p)"

definition accepting :: "World \<Rightarrow> LEVELS \<Rightarrow> ptr \<Rightarrow> bool" where
  "accepting w lv p = (case mask_of w p of None \<Rightarrow> False | Some lvs \<Rightarrow> accepts lvs lv)"

definition notification :: "World \<Rightarrow> Event \<Rightarrow> ptr \<Rightarrow> observation list" where
  "notification w e p = Called p e # (if accepting w (level e) p then [Handled p e] else [])"

definition notified :: "World \<Rightarrow> Event \<Rightarrow> (string \<times> ptr) list \<Rightarrow> observation list" where
  "notified w e m = concat (map (\<lambda>x. notification w e (snd x)) m)"

fun called_ptrs :: "observation list \<Rightarrow> ptr list" where
  "called_ptrs [] = []"
| "called_ptrs (Called p e # os) = p # called_ptrs os"
| "called_ptrs (Handled p e # os) = called_ptrs os"

fun handled_ptrs :: "observation list \<Rightarrow> ptr list" where
  "handled_ptrs [] = []"
| "handled_ptrs (Called p e # os) = handled_ptrs os"
| "handled_ptrs (Handled p e # os) = p # handled_ptrs os"

definition registered_live :: "World \<Rightarrow> bool" where
  "registered_live w \<longleftrightarrow> list_all (\<lambda>x. heap w (snd x) \<noteq> None) (inst_streams w)"

text \<open>
  The registry of the unit test "Logger Levels": the two default streams, and two test
  streams with the masks \<open>DBG | INFO | ERR\<close> (11) and \<open>WARNING | CRITICAL | ERR\<close> (28).
\<close>

definition levels_world :: World where
  "levels_world =
     \<lparr>Log_instance = Some \<lparr>streams =
        [(''dbg_info'', 3), (''defaultConsole'', 2), (''defaultTextFile'', 1), (''warn_crit'', 4)]\<rparr>,
      showDebug = False,
      heap = [1 \<mapsto> TextFileStream_ctor ''log.txt'', 2 \<mapsto> ConsoleStream_ctor,
              3 \<mapsto> \<lparr>levels = 11, derived = TestStream Event_default\<rparr>,
              4 \<mapsto> \<lparr>levels = 28, derived = TestStream Event_default\<rparr>],
      brk = 5, files = Map.empty, unwritable = {}, opened = [], cout = [], trace = []\<rparr>"

text \<open>
  A state in which the default log file cannot be opened, with an archive stream
  registered under a name that comes after the default streams' names.
\<close>

definition readonly_world :: World where
  "readonly_world =
     \<lparr>Log_instance = Some \<lparr>streams =
        [(''defaultConsole'', 2), (''defaultTextFile'', 1), (''zArchive'', 3)]\<rparr>,
      showDebug = False,
      heap = [1 \<mapsto> TextFileStream_ctor ''log.txt'', 2 \<mapsto> ConsoleStream_ctor,
              3 \<mapsto> ArchiveStream_ctor],
      brk = 4, files = Map.empty, unwritable = {''log.txt''}, opened = [], cout = [],
      trace = []\<rparr>"

text \<open>
  For the statements about the registry: a process that has not called the library yet
  (no files, every path writable), a local time that is always noon of 1 January 2000,
  the names under which \<open>getInstance\<close> registers the default streams, and "no entry of
  the registry has this name".
\<close>

definition local_noon :: "int \<Rightarrow> tm" where
  "local_noon t = noon_2000"

definition fresh_process :: World where
  "fresh_process = initial Map.empty {}"

definition unregistered :: "string \<Rightarrow> World \<Rightarrow> bool" where
  "unregistered name w \<longleftrightarrow> map_of (inst_streams w) name = None"

definition reserved :: "string \<Rightarrow> bool" where
  "reserved name \<longleftrightarrow> name = ''defaultTextFile'' \<or> name = ''defaultConsole''"

section \<open>Properties\<close>

subsection \<open>Rendering\<close>

lemma dec_nat_1: "n < 10 \<Longrightarrow> dec_nat n = [digit n]"
  by (simp add: dec_nat.simps)

lemma dec_nat_2: "10 \<le> n \<Longrightarrow> n < 100 \<Longrightarrow> dec_nat n = [digit (n div 10), digit n]"
  by (subst dec_nat.simps) (simp add: dec_nat_1)

lemma dec_nat_3:
  "100 \<le> n \<Longrightarrow> n < 1000 \<Longrightarrow> dec_nat n = [digit (n div 100), digit (n div 10), digit n]"
  by (subst dec_nat.simps) (simp add: dec_nat_2 div_mult2_eq [symmetric])

lemma dec_nat_4:
  "1000 \<le> n \<Longrightarrow> n < 10000 \<Longrightarrow>
   dec_nat n = [digit (n div 1000), digit (n div 100), digit (n div 10), digit n]"
  by (subst dec_nat.simps) (simp add: dec_nat_3 div_mult2_eq [symmetric])

lemma digit_0: "digit 0 = CHR ''0''"
  by (simp add: digit_def)

lemma pad2_two_digits:
  assumes "0 \<le> i" and "i \<le> 99"
  shows "pad2 i = two_digits i"
proof (cases "i < 10")
  case True
  with assms have "nat i < 10" by simp
  then show ?thesis
    using assms by (simp add: pad2_def dec_def dec_nat_1 two_digits_def digit_0)
next
  case False
  with assms have "10 \<le> nat i" and "nat i < 100" by simp_all
  then show ?thesis
    using False by (simp add: pad2_def dec_def dec_nat_2 two_digits_def)
qed

lemma dec_four_digits:
  assumes "1000 \<le> i" and "i \<le> 9999"
  shows "dec i = four_digits i"
proof -
  from assms have "1000 \<le> nat i" and "nat i < 10000" by simp_all
  then show ?thesis
    using assms by (simp add: dec_def dec_nat_4 four_digits_def)
qed

lemma put_time_dateFormat:
  "put_time t dateFormat =
     dec (tm_year t + 1900) @ ''/'' @ pad2 (tm_mon t + 1) @ ''/'' @ pad2 (tm_mday t) @ ''/'' @
     pad2 (tm_hour t) @ '':'' @ pad2 (tm_min t) @ '':'' @ pad2 (tm_sec t) @ '' - ''"
  by (simp add: dateFormat_def conversion_def)

lemma put_time_stamp: "calendar_tm t \<Longrightarrow> put_time t dateFormat = stamp t"
  unfolding put_time_dateFormat stamp_def calendar_tm_def
  by (simp add: pad2_two_digits dec_four_digits)

lemma calendar_noon_2000: "calendar_tm noon_2000"
  by (simp add: calendar_tm_def noon_2000_def)

lemma stamp_noon_2000: "stamp noon_2000 = ''2000/01/01/12:00:00 - ''"
  by (simp add: stamp_def noon_2000_def four_digits_def two_digits_def digit_def)

lemma Event_toString_layout:
  "Event_toString lt e =
     header lt e @ code_segment (code e) @ msg e @ source_segment (source e)"
  by (cases "level e")
    (simp_all add: Event_toString_def header_def symbol_of_def code_segment_def source_segment_def)

text \<open>
  C2. Rendering an event gives the level's symbol, then the time stamp, then the
  optional code segment, the message and the optional source segment. The symbol is the
  three characters of the table (\<open>" # "\<close> for DBG, three spaces for INFO, \<open>" ! "\<close> for
  WARNING, \<open>"!! "\<close> for ERR and \<open>"!!!"\<close> for CRITICAL). For a local time of the calendar
  with a four-digit year the time stamp is \<open>YYYY/MM/DD/HH:MM:SS\<close> followed by \<open>" - "\<close>. An
  event of level WARNING with the message \<open>Test Message\<close>, no source and no code, whose
  time stamp is noon of 1 January 2000 in local time, renders as
  \<open>" ! 2000/01/01/12:00:00 - Test Message"\<close>.
\<close>

theorem Event_toString_format:
  "Event_toString lt e =
     symbol_of (level e) @ put_time (lt (timestamp e)) dateFormat @
     code_segment (code e) @ msg e @ source_segment (source e)
   \<and> symbol_of DBG = '' # '' \<and> symbol_of INFO = ''   '' \<and> symbol_of WARNING = '' ! ''
   \<and> symbol_of ERR = ''!! '' \<and> symbol_of CRITICAL = ''!!!''
   \<and> (calendar_tm (lt (timestamp e)) \<longrightarrow>
        put_time (lt (timestamp e)) dateFormat = stamp (lt (timestamp e)))
   \<and> (level e = WARNING \<and> msg e = ''Test Message'' \<and> source e = [] \<and> code e = [] \<and>
        lt (timestamp e) = noon_2000 \<longrightarrow>
        Event_toString lt e = '' ! 2000/01/01/12:00:00 - Test Message'')"
proof -
  have layout: "Event_toString lt e =
      symbol_of (level e) @ put_time (lt (timestamp e)) dateFormat @
      code_segment (code e) @ msg e @ source_segment (source e)"
    using Event_toString_layout [of lt e] by (simp add: header_def)
  have table: "symbol_of DBG = '' # '' \<and> symbol_of INFO = ''   '' \<and> symbol_of WARNING = '' ! ''
      \<and> symbol_of ERR = ''!! '' \<and> symbol_of CRITICAL = ''!!!''"
    by (simp add: symbol_of_def)
  have test: "Event_toString lt e = '' ! 2000/01/01/12:00:00 - Test Message''"
    if "level e = WARNING" and "msg e = ''Test Message''" and "source e = []" and "code e = []"
      and "lt (timestamp e) = noon_2000"
  proof -
    have "put_time (lt (timestamp e)) dateFormat = ''2000/01/01/12:00:00 - ''"
      using that put_time_stamp [OF calendar_noon_2000] by (simp add: stamp_noon_2000)
    then show ?thesis
      using that table by (simp add: layout code_segment_def source_segment_def)
  qed
  from layout table test show ?thesis
    using put_time_stamp by blast
qed

theorem Event_toString_format_witness:
  "calendar_tm noon_2000 \<and>
   put_time noon_2000 dateFormat = ''2000/01/01/12:00:00 - '' \<and>
   Event_toString (\<lambda>t. noon_2000) (Event_ctor WARNING ''Test Message'' [] [] 946728000) =
     '' ! 2000/01/01/12:00:00 - Test Message''"
  using Event_toString_format
    [of "\<lambda>t. noon_2000" "Event_ctor WARNING ''Test Message'' [] [] 946728000"]
  by (simp add: Event_ctor_def calendar_noon_2000 stamp_noon_2000 code_segment_def
      source_segment_def)

text \<open>
  C3. The segment \<open>"[<code>] "\<close> stands between the time stamp's separator and the
  message exactly when the code is not empty, and the suffix \<open>" (from <source>)"\<close> stands
  after the message exactly when the source is not empty. Each segment depends on its own
  field only: what precedes, the header, is the symbol and the time stamp, whatever the
  code and the source are.
\<close>

theorem Event_toString_optional_segments:
  "(code e \<noteq> [] \<longrightarrow>
      Event_toString lt e =
        header lt e @ ''['' @ code e @ ''] '' @ msg e @ source_segment (source e))
   \<and> (code e = [] \<longrightarrow>
      Event_toString lt e = header lt e @ msg e @ source_segment (source e))
   \<and> (source e \<noteq> [] \<longrightarrow>
      Event_toString lt e =
        header lt e @ code_segment (code e) @ msg e @ '' (from '' @ source e @ '')'')
   \<and> (source e = [] \<longrightarrow>
      Event_toString lt e = header lt e @ code_segment (code e) @ msg e)
   \<and> header lt e = header lt (e\<lparr>code := c', source := s', msg := m'\<rparr>)"
  by (simp add: Event_toString_layout code_segment_def source_segment_def header_def)

theorem Event_toString_optional_segments_witness:
  "Event_toString (\<lambda>t. noon_2000) (Event_ctor INFO ''info_msg'' [] ''C0001'' 0) =
     ''   2000/01/01/12:00:00 - [C0001] info_msg''
   \<and> Event_toString (\<lambda>t. noon_2000) (Event_ctor INFO ''info_msg'' ''UnitTest'' [] 0) =
     ''   2000/01/01/12:00:00 - info_msg (from UnitTest)''
   \<and> Event_toString (\<lambda>t. noon_2000) (Event_ctor INFO ''info_msg'' ''UnitTest'' ''C0002'' 0) =
     ''   2000/01/01/12:00:00 - [C0002] info_msg (from UnitTest)''
   \<and> Event_toString (\<lambda>t. noon_2000) (Event_ctor INFO ''info_msg'' [] [] 0) =
     ''   2000/01/01/12:00:00 - info_msg''"
  using
    Event_toString_optional_segments
      [of "Event_ctor INFO ''info_msg'' [] ''C0001'' 0" "\<lambda>t. noon_2000"]
    Event_toString_optional_segments
      [of "Event_ctor INFO ''info_msg'' ''UnitTest'' [] 0" "\<lambda>t. noon_2000"]
    Event_toString_optional_segments
      [of "Event_ctor INFO ''info_msg'' ''UnitTest'' ''C0002'' 0" "\<lambda>t. noon_2000"]
    Event_toString_optional_segments
      [of "Event_ctor INFO ''info_msg'' [] [] 0" "\<lambda>t. noon_2000"]
    put_time_stamp [OF calendar_noon_2000]
  by (simp add: Event_ctor_def header_def symbol_of_def code_segment_def source_segment_def
      stamp_noon_2000)

text \<open>
  C10. The event made by the constructor without arguments has the level INFO and an
  empty message, source and code; it renders as the symbol of INFO (three spaces) and
  the time stamp, with an empty message and neither optional segment.
\<close>

theorem Event_default_render:
  "level Event_default = INFO \<and> msg Event_default = [] \<and> source Event_default = [] \<and>
   code Event_default = [] \<and>
   Event_toString lt Event_default = ''   '' @ put_time (lt (timestamp Event_default)) dateFormat"
  by (simp add: Event_default_def Event_toString_def)

theorem Event_default_render_witness:
  "Event_toString (\<lambda>t. noon_2000) Event_default = ''   2000/01/01/12:00:00 - ''"
  using Event_default_render [of "\<lambda>t. noon_2000"] put_time_stamp [OF calendar_noon_2000]
  by (simp add: stamp_noon_2000)

subsection \<open>The container and the dispatch loop\<close>

lemma map_of_map_assign: "map_of (map_assign k v m) = (map_of m)(k \<mapsto> v)"
  by (induction m) (auto simp add: fun_eq_iff)

lemma map_of_map_erase: "map_of (map_erase k m) = (map_of m)(k := None)"
  by (induction m) (auto simp add: map_erase_def fun_eq_iff)

lemma names_map_assign: "fst ` set (map_assign k v m) = insert k (fst ` set m)"
  by (induction m) auto

lemma names_ordered_map_assign:
  "names_ordered m \<Longrightarrow> names_ordered (map_assign k v m)"
  unfolding names_ordered_def
proof (induction m)
  case Nil
  then show ?case by simp
next
  case (Cons x m)
  show ?case
  proof (cases "k < fst x")
    case True
    with Cons.prems show ?thesis by auto
  next
    case False
    show ?thesis
    proof (cases "k = fst x")
      case True
      with Cons.prems show ?thesis by auto
    next
      case neq: False
      with False have lt: "fst x < k" by auto
      have "sorted_wrt (<) (map fst (map_assign k v m))"
        using Cons by simp
      moreover have "\<forall>y \<in> set (map fst (map_assign k v m)). fst x < y"
        using Cons.prems lt names_map_assign [of k v m] by auto
      ultimately show ?thesis
        using False neq by simp
    qed
  qed
qed

lemma names_ordered_map_erase: "names_ordered m \<Longrightarrow> names_ordered (map_erase k m)"
  unfolding names_ordered_def map_erase_def
  by (induction m) auto

lemma names_ordered_distinct: "names_ordered m \<Longrightarrow> distinct (map fst m)"
  unfolding names_ordered_def
  by (induction m) auto

lemma length_map_assign_present:
  "names_ordered m \<Longrightarrow> k \<in> fst ` set m \<Longrightarrow> length (map_assign k v m) = length m"
  unfolding names_ordered_def
  by (induction m) auto

lemma getInstance_Some: "Log_instance w = Some i \<Longrightarrow> Log_getInstance w = w"
  by (simp add: Log_getInstance_def)

lemma getInstance_None:
  "Log_instance w = None \<Longrightarrow>
   Log_getInstance w =
     w\<lparr>Log_instance := Some \<lparr>streams = [(''defaultConsole'', Suc (brk w)), (''defaultTextFile'', brk w)]\<rparr>,
       heap := (heap w)(brk w \<mapsto> TextFileStream_ctor ''log.txt'', Suc (brk w) \<mapsto> ConsoleStream_ctor),
       brk := Suc (Suc (brk w))\<rparr>"
  by (simp add: Log_getInstance_def new_Stream_def streams_assign_def set_inst_streams_def
      inst_streams_def)

lemma TextFileStream_handle_frame:
  "Log_instance (TextFileStream_handle lt file e w) = Log_instance w"
  "showDebug (TextFileStream_handle lt file e w) = showDebug w"
  "heap (TextFileStream_handle lt file e w) = heap w"
  "trace (TextFileStream_handle lt file e w) = trace w"
  "cout (TextFileStream_handle lt file e w) = cout w"
  by (simp_all add: TextFileStream_handle_def fstream_open_def fstream_write_def fstream_close_def)

lemma handle_frame:
  "Log_instance (handle lt p s e w) = Log_instance w"
  "showDebug (handle lt p s e w) = showDebug w"
  "trace (handle lt p s e w) = trace w @ [Handled p e]"
  by (simp_all add: handle_def Let_def TextFileStream_handle_frame ConsoleStream_handle_def
      ArchiveStream_handle_def TestStream_handle_def split: Stream_class.split)

lemma handle_mask_of:
  "heap w p = Some s \<Longrightarrow> mask_of (handle lt p s e w) = mask_of w"
  by (auto simp add: handle_def Let_def mask_of_def TextFileStream_handle_frame
      ConsoleStream_handle_def ArchiveStream_handle_def TestStream_handle_def fun_eq_iff
      split: Stream_class.split)

lemma Stream_call_live:
  assumes "heap w p = Some s"
  shows "\<exists>w'. Stream_call lt p e w = Inr w' \<and> Log_instance w' = Log_instance w \<and>
           showDebug w' = showDebug w \<and> mask_of w' = mask_of w \<and>
           trace w' = trace w @ notification w e p"
proof (cases "accepts (levels s) (level e)")
  case True
  let ?w1 = "w\<lparr>trace := trace w @ [Called p e]\<rparr>"
  have "heap ?w1 p = Some s" using assms by simp
  then have "mask_of (handle lt p s e ?w1) = mask_of ?w1"
    by (rule handle_mask_of)
  moreover have "mask_of ?w1 = mask_of w" and "mask_of w p = Some (levels s)"
    using assms by (simp_all add: mask_of_def fun_eq_iff)
  ultimately show ?thesis
    using assms True
    by (simp add: Stream_call_def Let_def accepts_def handle_frame notification_def
        accepting_def)
next
  case False
  then show ?thesis
    using assms
    by (simp add: Stream_call_def Let_def accepts_def notification_def accepting_def
        mask_of_def fun_eq_iff)
qed

lemma notified_cong: "mask_of w' = mask_of w \<Longrightarrow> notified w' e m = notified w e m"
  by (simp add: notified_def notification_def accepting_def)

lemma for_streams_live:
  assumes "list_all (\<lambda>x. mask_of w (snd x) \<noteq> None) m"
  shows "\<exists>w'. for_streams lt m e w = Inr w' \<and> Log_instance w' = Log_instance w \<and>
           showDebug w' = showDebug w \<and> mask_of w' = mask_of w \<and>
           trace w' = trace w @ notified w e m"
  using assms
proof (induction m arbitrary: w)
  case Nil
  then show ?case by (simp add: notified_def)
next
  case (Cons x m)
  from Cons.prems obtain s where s: "heap w (snd x) = Some s"
    by (auto simp add: mask_of_def)
  from Stream_call_live [OF s, of lt e] obtain w1 where
    w1: "Stream_call lt (snd x) e w = Inr w1" "Log_instance w1 = Log_instance w"
      "showDebug w1 = showDebug w" "mask_of w1 = mask_of w"
      "trace w1 = trace w @ notification w e (snd x)"
    by blast
  from Cons.prems w1 have "list_all (\<lambda>x. mask_of w1 (snd x) \<noteq> None) m"
    by simp
  from Cons.IH [OF this] obtain w' where
    w': "for_streams lt m e w1 = Inr w'" "Log_instance w' = Log_instance w1"
      "showDebug w' = showDebug w1" "mask_of w' = mask_of w1"
      "trace w' = trace w1 @ notified w1 e m"
    by blast
  have "notified w1 e m = notified w e m"
    using w1(4) by (rule notified_cong)
  with w1 w' show ?case
    by (simp add: notified_def)
qed

lemma called_ptrs_append: "called_ptrs (xs @ ys) = called_ptrs xs @ called_ptrs ys"
  by (induction xs rule: called_ptrs.induct) simp_all

lemma handled_ptrs_append: "handled_ptrs (xs @ ys) = handled_ptrs xs @ handled_ptrs ys"
  by (induction xs rule: handled_ptrs.induct) simp_all

lemma called_ptrs_notified: "called_ptrs (notified w e m) = map snd m"
  by (induction m) (simp_all add: notified_def notification_def)

lemma handled_ptrs_notified:
  "handled_ptrs (notified w e m) = filter (accepting w (level e)) (map snd m)"
  by (induction m) (simp_all add: notified_def notification_def)

subsection \<open>Dispatch\<close>

lemma and_exp_eq_iff_bit:
  fixes M :: cint
  assumes n: "n < 32"
  shows "(M AND 2 ^ n) = 2 ^ n \<longleftrightarrow> bit M n"
proof
  assume h: "M AND 2 ^ n = 2 ^ n"
  have "bit (M AND 2 ^ n) n = bit (2 ^ n :: cint) n"
    using h by simp
  then show "bit M n"
    using n by (simp add: bit_and_iff bit_exp_iff)
next
  assume b: "bit M n"
  show "M AND 2 ^ n = 2 ^ n"
    by (rule bit_word_eqI) (auto simp add: bit_and_iff bit_exp_iff b)
qed

lemma LEVELS_val_exp: "LEVELS_val lv = 2 ^ LEVELS_bit lv"
  by (cases lv) (simp_all add: LEVELS_bit_def)

lemma LEVELS_bit_less: "LEVELS_bit lv < 32"
  by (cases lv) (simp_all add: LEVELS_bit_def)

lemma accepts_iff_bit: "accepts M lv \<longleftrightarrow> bit M (LEVELS_bit lv)"
  unfolding accepts_def LEVELS_val_exp
  by (rule and_exp_eq_iff_bit [OF LEVELS_bit_less])

lemma getInstance_frame:
  "trace (Log_getInstance w) = trace w"
  "showDebug (Log_getInstance w) = showDebug w"
  "files (Log_getInstance w) = files w"
  "unwritable (Log_getInstance w) = unwritable w"
  "opened (Log_getInstance w) = opened w"
  "cout (Log_getInstance w) = cout w"
  by (cases "Log_instance w"; simp add: getInstance_None getInstance_Some)+

lemma getInstance_instance: "Log_instance (Log_getInstance w) \<noteq> None"
  by (cases "Log_instance w") (simp_all add: getInstance_None getInstance_Some)

lemma getInstance_idem: "Log_getInstance (Log_getInstance w) = Log_getInstance w"
  using getInstance_instance [of w] by (auto simp add: getInstance_Some)

lemma getInstance_live: "registered_live w \<Longrightarrow> registered_live (Log_getInstance w)"
  by (cases "Log_instance w")
    (simp_all add: getInstance_None getInstance_Some registered_live_def inst_streams_def)

lemma registered_live_mask_of:
  "registered_live w \<Longrightarrow> list_all (\<lambda>x. mask_of w (snd x) \<noteq> None) (inst_streams w)"
  by (simp add: registered_live_def mask_of_def)

lemma Log_log_visible:
  "lv \<noteq> DBG \<or> sd \<or> showDebug w \<Longrightarrow>
   Log_log sd lt now lv m src cd w =
     for_streams lt (inst_streams (Log_getInstance w)) (Event_ctor lv m src cd now) (Log_getInstance w)"
  by (auto simp add: Log_log_def Let_def)

lemma Log_log_trace:
  assumes "registered_live w" and "lv \<noteq> DBG \<or> sd \<or> showDebug w"
  shows "\<exists>w'. Log_log sd lt now lv m src cd w = Inr w' \<and>
           trace w' = trace w @ notified (Log_getInstance w) (Event_ctor lv m src cd now)
                                 (inst_streams (Log_getInstance w))"
proof -
  let ?w0 = "Log_getInstance w"
  have "list_all (\<lambda>x. mask_of ?w0 (snd x) \<noteq> None) (inst_streams ?w0)"
    using assms(1) by (intro registered_live_mask_of getInstance_live)
  from for_streams_live [OF this, of lt "Event_ctor lv m src cd now"]
  show ?thesis
    using assms(2) by (auto simp add: Log_log_visible getInstance_frame)
qed

lemma accepting_iff:
  "accepting w lv p \<longleftrightarrow>
     (case heap w p of None \<Rightarrow> False | Some s \<Rightarrow> (levels s AND LEVELS_val lv) = LEVELS_val lv)"
  by (simp add: accepting_def mask_of_def accepts_def split: option.split)

text \<open>
  C1. A call of \<open>log\<close> with one of the five levels that debug gating does not suppress, in
  a state whose registered pointers all point to stream objects, returns without error
  and offers the event to every entry of the registry exactly once, in the registry's
  order: the calls it adds to the trace are the registry's pointers, one per entry. The
  handlers it invokes are those of the entries whose mask \<open>M\<close> satisfies
  \<open>(M & L) == L\<close>, and no others; for each of the five levels that test says that the
  level's bit is set in \<open>M\<close>. (A destination is an entry of the registry: a stream object
  registered under two names is offered the event once for each.)
\<close>

theorem Log_log_dispatch:
  assumes "registered_live w" and "lv \<noteq> DBG \<or> SHOW_DEBUG \<or> showDebug w"
  shows "\<exists>w'. Log_log SHOW_DEBUG lt now lv m src cd w = Inr w' \<and>
           trace w' = trace w @ notified (Log_getInstance w) (Event_ctor lv m src cd now)
                                 (inst_streams (Log_getInstance w)) \<and>
           called_ptrs (notified (Log_getInstance w) (Event_ctor lv m src cd now)
                          (inst_streams (Log_getInstance w))) =
             map snd (inst_streams (Log_getInstance w)) \<and>
           handled_ptrs (notified (Log_getInstance w) (Event_ctor lv m src cd now)
                          (inst_streams (Log_getInstance w))) =
             filter (accepting (Log_getInstance w) lv) (map snd (inst_streams (Log_getInstance w))) \<and>
           (accepting (Log_getInstance w) lv p \<longleftrightarrow>
              (case heap (Log_getInstance w) p of
                 None \<Rightarrow> False
               | Some s \<Rightarrow> (levels s AND LEVELS_val lv) = LEVELS_val lv)) \<and>
           ((M AND LEVELS_val lv) = LEVELS_val lv \<longleftrightarrow> bit M (LEVELS_bit lv))"
proof -
  have "level (Event_ctor lv m src cd now) = lv"
    by (simp add: Event_ctor_def)
  then show ?thesis
    using Log_log_trace [OF assms, of lt now m src cd] accepts_iff_bit [of M lv]
      accepting_iff [of "Log_getInstance w" lv p]
    by (simp add: called_ptrs_notified handled_ptrs_notified accepts_def)
qed

lemma levels_world_live: "registered_live levels_world"
  by (simp add: registered_live_def levels_world_def inst_streams_def)

theorem Log_log_dispatch_witness:
  "registered_live levels_world \<and>
   (case Log_log True (\<lambda>t. noon_2000) 0 DBG ''dbg_msg'' [] [] levels_world of
      Inl err \<Rightarrow> False
    | Inr w' \<Rightarrow> called_ptrs (trace w') = [3, 2, 1, 4] \<and> handled_ptrs (trace w') = [3, 2, 1]) \<and>
   (case Log_log False (\<lambda>t. noon_2000) 0 WARNING ''warn_msg'' [] [] levels_world of
      Inl err \<Rightarrow> False
    | Inr w' \<Rightarrow> called_ptrs (trace w') = [3, 2, 1, 4] \<and> handled_ptrs (trace w') = [2, 1, 4]) \<and>
   (case Log_log False (\<lambda>t. noon_2000) 0 ERR ''err_msg'' [] [] levels_world of
      Inl err \<Rightarrow> False
    | Inr w' \<Rightarrow> called_ptrs (trace w') = [3, 2, 1, 4] \<and> handled_ptrs (trace w') = [3, 2, 1, 4])"
proof -
  have i: "Log_getInstance levels_world = levels_world"
    by (rule getInstance_Some) (simp add: levels_world_def)
  have s: "inst_streams levels_world =
      [(''dbg_info'', 3), (''defaultConsole'', 2), (''defaultTextFile'', 1), (''warn_crit'', 4)]"
    by (simp add: inst_streams_def levels_world_def)
  have m: "accepting levels_world lv p \<longleftrightarrow>
      (p = 1 \<or> p = 2) \<or> (p = 3 \<and> lv \<in> {DBG, INFO, ERR}) \<or>
      (p = 4 \<and> lv \<in> {WARNING, CRITICAL, ERR})" for lv p
    by (cases lv)
      (simp_all add: accepting_def accepts_def mask_of_def levels_world_def
        TextFileStream_ctor_def ConsoleStream_ctor_def ALL_LEVELS_def)
  have t: "trace levels_world = []"
    by (simp add: levels_world_def)
  show ?thesis
    using
      Log_log_dispatch [of levels_world DBG True "\<lambda>t. noon_2000" 0 "''dbg_msg''" "[]" "[]" 0 0]
      Log_log_dispatch [of levels_world WARNING False "\<lambda>t. noon_2000" 0 "''warn_msg''" "[]" "[]" 0 0]
      Log_log_dispatch [of levels_world ERR False "\<lambda>t. noon_2000" 0 "''err_msg''" "[]" "[]" 0 0]
    by (auto simp add: levels_world_live i s m t)
qed

subsection \<open>Debug gating and the file stream\<close>

lemma Stream_call_showDebug:
  "Stream_call lt p e (Log_forceDebug b w) = map_sum id (Log_forceDebug b) (Stream_call lt p e w)"
  by (simp add: Stream_call_def Let_def Log_forceDebug_def handle_def TextFileStream_handle_def
      fstream_open_def fstream_write_def fstream_close_def ConsoleStream_handle_def
      ArchiveStream_handle_def TestStream_handle_def
      split: option.split Stream_class.split)

lemma for_streams_showDebug:
  "for_streams lt ms e (Log_forceDebug b w) = map_sum id (Log_forceDebug b) (for_streams lt ms e w)"
proof (induction ms arbitrary: w)
  case Nil
  then show ?case by simp
next
  case (Cons x ms)
  show ?case
  proof (cases "Stream_call lt (snd x) e w")
    case (Inl err)
    then show ?thesis by (simp add: Stream_call_showDebug)
  next
    case (Inr w1)
    then show ?thesis by (simp add: Stream_call_showDebug Cons.IH)
  qed
qed

lemma getInstance_showDebug:
  "Log_getInstance (Log_forceDebug b w) = Log_forceDebug b (Log_getInstance w)"
  by (cases "Log_instance w")
    (simp_all add: Log_forceDebug_def getInstance_None getInstance_Some)

lemma inst_streams_showDebug: "inst_streams (Log_forceDebug b w) = inst_streams w"
  by (simp add: inst_streams_def Log_forceDebug_def)

lemma Log_log_forceDebug:
  assumes "lv \<noteq> DBG \<or> sd"
  shows "Log_log sd lt now lv m src cd (Log_forceDebug b w) =
           map_sum id (Log_forceDebug b) (Log_log sd lt now lv m src cd w)"
proof -
  have "lv \<noteq> DBG \<or> sd \<or> showDebug w" and "lv \<noteq> DBG \<or> sd \<or> showDebug (Log_forceDebug b w)"
    using assms by auto
  then show ?thesis
    by (simp only: Log_log_visible getInstance_showDebug inst_streams_showDebug
        for_streams_showDebug)
qed

lemma Log_log_forced:
  "Log_log False lt now DBG m src cd (Log_forceDebug True w) =
     map_sum id (Log_forceDebug True) (Log_log True lt now DBG m src cd w)"
proof -
  have "Log_log False lt now DBG m src cd (Log_forceDebug True w) =
      Log_log True lt now DBG m src cd (Log_forceDebug True w)"
    by (simp add: Log_log_def Log_forceDebug_def)
  then show ?thesis
    by (simp add: Log_log_forceDebug)
qed

lemma Log_log_notifies:
  assumes "registered_live w" and "lv \<noteq> DBG \<or> sd \<or> showDebug w"
  shows "\<exists>w'. Log_log sd lt now lv m src cd w = Inr w' \<and>
           called_ptrs (drop (length (trace w)) (trace w')) =
             map snd (inst_streams (Log_getInstance w)) \<and>
           handled_ptrs (drop (length (trace w)) (trace w')) =
             filter (accepting (Log_getInstance w) lv) (map snd (inst_streams (Log_getInstance w)))"
proof -
  have "level (Event_ctor lv m src cd now) = lv"
    by (simp add: Event_ctor_def)
  then show ?thesis
    using Log_log_trace [OF assms, of lt now m src cd]
    by (auto simp add: called_ptrs_notified handled_ptrs_notified)
qed

text \<open>
  C4. In a build without \<open>SHOW_DEBUG\<close> and with the flag \<open>showDebug\<close> false, \<open>log\<close> with the
  level DBG changes nothing: the state it returns is the state it was given (no event,
  no call of any stream, not even the creation of the registry). After
  \<open>forceDebug(true)\<close> the same call does what a debug build does: it returns without
  error (the registered pointers being valid), offers the event to every entry of the
  registry and invokes the handlers whose mask accepts DBG. For every other level the
  flag has no effect on \<open>log\<close>: setting it before the call or after it gives the same
  result.
\<close>

theorem Log_log_debug_gating:
  "(\<not> showDebug w \<longrightarrow> Log_log False lt now DBG m src cd w = Inr w)
   \<and> Log_log False lt now DBG m src cd (Log_forceDebug True w) =
       map_sum id (Log_forceDebug True) (Log_log True lt now DBG m src cd w)
   \<and> (registered_live w \<longrightarrow>
        (\<exists>w'. Log_log False lt now DBG m src cd (Log_forceDebug True w) = Inr w' \<and>
           called_ptrs (drop (length (trace w)) (trace w')) =
             map snd (inst_streams (Log_getInstance w)) \<and>
           handled_ptrs (drop (length (trace w)) (trace w')) =
             filter (accepting (Log_getInstance w) DBG) (map snd (inst_streams (Log_getInstance w)))))
   \<and> (lv \<noteq> DBG \<longrightarrow>
        Log_log sd lt now lv m src cd (Log_forceDebug b w) =
          map_sum id (Log_forceDebug b) (Log_log sd lt now lv m src cd w))"
proof -
  have quiet: "Log_log False lt now DBG m src cd w = Inr w" if "\<not> showDebug w"
    using that by (simp add: Log_log_def)
  have forced: "\<exists>w'. Log_log False lt now DBG m src cd (Log_forceDebug True w) = Inr w' \<and>
      called_ptrs (drop (length (trace w)) (trace w')) =
        map snd (inst_streams (Log_getInstance w)) \<and>
      handled_ptrs (drop (length (trace w)) (trace w')) =
        filter (accepting (Log_getInstance w) DBG) (map snd (inst_streams (Log_getInstance w)))"
    if live: "registered_live w"
  proof -
    from Log_log_notifies [OF live, of DBG True lt now m src cd]
    obtain w1 where w1: "Log_log True lt now DBG m src cd w = Inr w1"
      "called_ptrs (drop (length (trace w)) (trace w1)) =
         map snd (inst_streams (Log_getInstance w))"
      "handled_ptrs (drop (length (trace w)) (trace w1)) =
         filter (accepting (Log_getInstance w) DBG) (map snd (inst_streams (Log_getInstance w)))"
      by auto
    have "trace (Log_forceDebug True w1) = trace w1"
      by (simp add: Log_forceDebug_def)
    with w1 show ?thesis
      by (simp add: Log_log_forced)
  qed
  from quiet forced show ?thesis
    by (simp add: Log_log_forced Log_log_forceDebug)
qed

theorem Log_log_debug_gating_witness:
  "\<not> showDebug levels_world \<and>
   Log_log False (\<lambda>t. noon_2000) 0 DBG ''dbg_msg'' [] [] levels_world = Inr levels_world \<and>
   (case Log_log False (\<lambda>t. noon_2000) 0 DBG ''dbg_msg'' [] [] (Log_forceDebug True levels_world) of
      Inl err \<Rightarrow> False
    | Inr w' \<Rightarrow> called_ptrs (trace w') = [3, 2, 1, 4] \<and> handled_ptrs (trace w') = [3, 2, 1])"
proof -
  have i: "Log_getInstance levels_world = levels_world"
    by (rule getInstance_Some) (simp add: levels_world_def)
  have s: "inst_streams levels_world =
      [(''dbg_info'', 3), (''defaultConsole'', 2), (''defaultTextFile'', 1), (''warn_crit'', 4)]"
    by (simp add: inst_streams_def levels_world_def)
  have m: "accepting levels_world DBG p \<longleftrightarrow> p = 1 \<or> p = 2 \<or> p = 3" for p
    by (auto simp add: accepting_def accepts_def mask_of_def levels_world_def
        TextFileStream_ctor_def ConsoleStream_ctor_def ALL_LEVELS_def)
  have t: "trace levels_world = []" "\<not> showDebug levels_world"
    by (simp_all add: levels_world_def)
  note th = Log_log_debug_gating
      [of levels_world "\<lambda>t. noon_2000" 0 "''dbg_msg''" "[]" "[]" INFO False False]
  from th t have q:
    "Log_log False (\<lambda>t. noon_2000) 0 DBG ''dbg_msg'' [] [] levels_world = Inr levels_world"
    by blast
  from th levels_world_live obtain w' where
    "Log_log False (\<lambda>t. noon_2000) 0 DBG ''dbg_msg'' [] [] (Log_forceDebug True levels_world) =
       Inr w'"
    "called_ptrs (drop (length (trace levels_world)) (trace w')) =
       map snd (inst_streams (Log_getInstance levels_world))"
    "handled_ptrs (drop (length (trace levels_world)) (trace w')) =
       filter (accepting (Log_getInstance levels_world) DBG)
         (map snd (inst_streams (Log_getInstance levels_world)))"
    by blast
  with q show ?thesis
    by (simp add: i s m t)
qed

lemma handle_opened: "opened (handle lt p s e w) = opened w"
  by (simp add: handle_def Let_def TextFileStream_handle_def fstream_open_def fstream_write_def
      fstream_close_def ConsoleStream_handle_def ArchiveStream_handle_def TestStream_handle_def
      split: Stream_class.split)

lemma Stream_call_opened: "Stream_call lt p e w = Inr w' \<Longrightarrow> opened w' = opened w"
  by (auto simp add: Stream_call_def Let_def handle_opened split: option.splits if_splits)

lemma for_streams_opened: "for_streams lt ms e w = Inr w' \<Longrightarrow> opened w' = opened w"
proof (induction ms arbitrary: w)
  case Nil
  then show ?case by simp
next
  case (Cons x ms)
  then show ?case
    by (auto split: sum.splits dest: Stream_call_opened)
qed

lemma Log_log_opened: "Log_log sd lt now lv m src cd w = Inr w' \<Longrightarrow> opened w' = opened w"
  by (auto simp add: Log_log_def Let_def getInstance_frame split: if_splits
      dest: for_streams_opened)

text \<open>
  C7. \<open>TextFileStream::handle\<close> on a file that can be opened appends the rendered event to
  what the file held (an absent file is created) and leaves no file open that was not
  open before. On a file that cannot be opened it changes nothing and raises nothing.
  Whatever the files are, a call of \<open>log\<close> that is not suppressed (the registered pointers
  being valid) returns without error, offers the event to every entry of the registry,
  invokes the handlers of all accepting entries and leaves the open files as they were.
\<close>

theorem TextFileStream_handle_best_effort:
  "(file \<notin> unwritable w \<longrightarrow>
      files (TextFileStream_handle lt file e w) =
        (files w)(file \<mapsto> (case files w file of None \<Rightarrow> [] | Some c \<Rightarrow> c) @ Event_toString lt e) \<and>
      opened (TextFileStream_handle lt file e w) = opened w)
   \<and> (file \<in> unwritable w \<longrightarrow> TextFileStream_handle lt file e w = w)
   \<and> (registered_live w \<and> (lv \<noteq> DBG \<or> sd \<or> showDebug w) \<longrightarrow>
        (\<exists>w'. Log_log sd lt now lv m src cd w = Inr w' \<and>
           called_ptrs (drop (length (trace w)) (trace w')) =
             map snd (inst_streams (Log_getInstance w)) \<and>
           handled_ptrs (drop (length (trace w)) (trace w')) =
             filter (accepting (Log_getInstance w) lv) (map snd (inst_streams (Log_getInstance w))) \<and>
           opened w' = opened w))"
proof -
  have ok: "files (TextFileStream_handle lt file e w) =
        (files w)(file \<mapsto> (case files w file of None \<Rightarrow> [] | Some c \<Rightarrow> c) @ Event_toString lt e) \<and>
      opened (TextFileStream_handle lt file e w) = opened w"
    if "file \<notin> unwritable w"
    using that
    by (simp add: TextFileStream_handle_def fstream_open_def fstream_write_def fstream_close_def)
  have dropped: "TextFileStream_handle lt file e w = w" if "file \<in> unwritable w"
    using that
    by (simp add: TextFileStream_handle_def fstream_open_def fstream_write_def fstream_close_def)
  have rest: "\<exists>w'. Log_log sd lt now lv m src cd w = Inr w' \<and>
           called_ptrs (drop (length (trace w)) (trace w')) =
             map snd (inst_streams (Log_getInstance w)) \<and>
           handled_ptrs (drop (length (trace w)) (trace w')) =
             filter (accepting (Log_getInstance w) lv) (map snd (inst_streams (Log_getInstance w))) \<and>
           opened w' = opened w"
    if "registered_live w" and "lv \<noteq> DBG \<or> sd \<or> showDebug w"
    using Log_log_notifies [OF that, of lt now m src cd] Log_log_opened [of sd lt now lv m src cd w]
    by auto
  from ok dropped rest show ?thesis
    by blast
qed

lemma readonly_world_live: "registered_live readonly_world"
  by (simp add: registered_live_def readonly_world_def inst_streams_def)

theorem TextFileStream_handle_best_effort_witness:
  "''log.txt'' \<in> unwritable readonly_world \<and> registered_live readonly_world \<and>
   TextFileStream_handle (\<lambda>t. noon_2000) ''log.txt'' (Event_ctor WARNING ''warn_msg'' [] [] 0)
     readonly_world = readonly_world \<and>
   ''log.txt'' \<notin> unwritable levels_world \<and>
   files (TextFileStream_handle (\<lambda>t. noon_2000) ''log.txt'' (Event_ctor WARNING ''warn_msg'' [] [] 0)
     levels_world) ''log.txt'' = Some '' ! 2000/01/01/12:00:00 - warn_msg'' \<and>
   (case Log_log False (\<lambda>t. noon_2000) 0 WARNING ''warn_msg'' [] [] readonly_world of
      Inl err \<Rightarrow> False
    | Inr w' \<Rightarrow>
        called_ptrs (trace w') = [2, 1, 3] \<and> handled_ptrs (trace w') = [2, 1, 3] \<and>
        opened w' = [] \<and> files w' ''log.txt'' = None \<and>
        cout w' = '' ! 2000/01/01/12:00:00 - warn_msg'' \<and>
        heap w' 3 =
          Some \<lparr>levels = 31, derived = ArchiveStream [Event_ctor WARNING ''warn_msg'' [] [] 0]\<rparr>)"
proof -
  let ?lt = "\<lambda>t::int. noon_2000"
  let ?e = "Event_ctor WARNING ''warn_msg'' [] [] 0"
  have str: "Event_toString ?lt ?e = '' ! 2000/01/01/12:00:00 - warn_msg''"
    using put_time_stamp [OF calendar_noon_2000]
    by (simp add: Event_toString_layout header_def symbol_of_def code_segment_def
        source_segment_def Event_ctor_def stamp_noon_2000)
  have u: "''log.txt'' \<in> unwritable readonly_world" "''log.txt'' \<notin> unwritable levels_world"
    "files levels_world ''log.txt'' = None"
    by (simp_all add: readonly_world_def levels_world_def)
  have i: "Log_getInstance readonly_world = readonly_world"
    by (rule getInstance_Some) (simp add: readonly_world_def)
  have s: "inst_streams readonly_world =
      [(''defaultConsole'', 2), (''defaultTextFile'', 1), (''zArchive'', 3)]"
    by (simp add: inst_streams_def readonly_world_def)
  have m: "accepting readonly_world WARNING p \<longleftrightarrow> p = 1 \<or> p = 2 \<or> p = 3" for p
    by (auto simp add: accepting_def accepts_def mask_of_def readonly_world_def
        TextFileStream_ctor_def ConsoleStream_ctor_def ArchiveStream_ctor_def ALL_LEVELS_def)
  have t: "trace readonly_world = []" "opened readonly_world = []"
    "files readonly_world ''log.txt'' = None"
    by (simp_all add: readonly_world_def)
  note th = TextFileStream_handle_best_effort
  from th [of "''log.txt''" readonly_world ?lt ?e] u
  have a: "TextFileStream_handle ?lt ''log.txt'' ?e readonly_world = readonly_world"
    by blast
  from th [of "''log.txt''" levels_world ?lt ?e] u
  have b: "files (TextFileStream_handle ?lt ''log.txt'' ?e levels_world) ''log.txt'' =
      Some '' ! 2000/01/01/12:00:00 - warn_msg''"
    by (simp add: str)
  have run: "Log_log False ?lt 0 WARNING ''warn_msg'' [] [] readonly_world =
      Inr (readonly_world
        \<lparr>heap := (heap readonly_world)(3 \<mapsto> \<lparr>levels = 31, derived = ArchiveStream [?e]\<rparr>),
         cout := Event_toString ?lt ?e,
         trace := [Called 2 ?e, Handled 2 ?e, Called 1 ?e, Handled 1 ?e, Called 3 ?e, Handled 3 ?e]\<rparr>)"
    unfolding Log_log_visible [of WARNING False readonly_world, simplified] i s
    by (simp add: Stream_call_def handle_def Let_def ConsoleStream_handle_def
        ArchiveStream_handle_def a readonly_world_def
        TextFileStream_ctor_def ConsoleStream_ctor_def ArchiveStream_ctor_def ALL_LEVELS_def
        Event_ctor_def TextFileStream_handle_def fstream_open_def fstream_close_def)
  from th [where w = readonly_world and lv = WARNING and sd = False and lt = ?lt and now = 0
      and m = "''warn_msg''" and src = "[]" and cd = "[]"] readonly_world_live
  obtain w' where
    "Log_log False ?lt 0 WARNING ''warn_msg'' [] [] readonly_world = Inr w'"
    "called_ptrs (drop (length (trace readonly_world)) (trace w')) =
       map snd (inst_streams (Log_getInstance readonly_world))"
    "handled_ptrs (drop (length (trace readonly_world)) (trace w')) =
       filter (accepting (Log_getInstance readonly_world) WARNING)
         (map snd (inst_streams (Log_getInstance readonly_world)))"
    "opened w' = opened readonly_world"
    by blast
  with a b u run show ?thesis
    by (simp add: i s m t str readonly_world_live)
qed

subsection \<open>The registry\<close>

lemma inst_streams_set:
  "Log_instance w \<noteq> None \<Longrightarrow> inst_streams (set_inst_streams m w) = m"
  by (auto simp add: inst_streams_def set_inst_streams_def)

lemma set_inst_streams_frame:
  "heap (set_inst_streams m w) = heap w"
  "trace (set_inst_streams m w) = trace w"
  "Log_instance w \<noteq> None \<Longrightarrow> Log_instance (set_inst_streams m w) \<noteq> None"
  by (auto simp add: set_inst_streams_def split: option.split)

lemma getStream_eq:
  "Log_getStream name w =
     (case map_of (inst_streams (Log_getInstance w)) name of None \<Rightarrow> nullptr | Some p \<Rightarrow> p,
      Log_getInstance w)"
  by (simp add: Log_getStream_def Let_def map_find_def)

lemma addStream_streams:
  "inst_streams (Log_addStream name p w) = map_assign name p (inst_streams (Log_getInstance w))"
  by (simp add: Log_addStream_def Let_def streams_assign_def inst_streams_set getInstance_instance)

lemma addStream_instance: "Log_instance (Log_addStream name p w) \<noteq> None"
  by (simp add: Log_addStream_def Let_def streams_assign_def set_inst_streams_frame
      getInstance_instance)

lemma addStream_getInstance: "Log_getInstance (Log_addStream name p w) = Log_addStream name p w"
  using addStream_instance [of name p w] by (auto simp add: getInstance_Some)

lemma addStream_heap: "heap (Log_addStream name p w) = heap (Log_getInstance w)"
  by (simp add: Log_addStream_def Let_def streams_assign_def set_inst_streams_frame)

lemma addStream_nested:
  "Log_instance w \<noteq> None \<Longrightarrow> Log_addStream name p w = streams_assign name p w"
  by (auto simp add: Log_addStream_def getInstance_Some)

lemma removeStream_eq:
  "Log_removeStream name w =
     (let w0 = Log_getInstance w;
          r = (case map_of (inst_streams w0) name of None \<Rightarrow> nullptr | Some p \<Rightarrow> p)
      in (r, if r \<noteq> nullptr then set_inst_streams (map_erase name (inst_streams w0)) w0 else w0))"
  by (simp add: Log_removeStream_def getStream_eq Let_def getInstance_idem)

lemma removeStream_instance: "Log_instance (snd (Log_removeStream name w)) \<noteq> None"
  using getInstance_instance [of w] set_inst_streams_frame(3) [of "Log_getInstance w"]
  by (auto simp add: removeStream_eq Let_def)

lemma removeStream_streams:
  "inst_streams (snd (Log_removeStream name w)) =
     (if (case map_of (inst_streams (Log_getInstance w)) name of None \<Rightarrow> nullptr | Some p \<Rightarrow> p) \<noteq> nullptr
      then map_erase name (inst_streams (Log_getInstance w))
      else inst_streams (Log_getInstance w))"
  by (simp add: removeStream_eq Let_def inst_streams_set getInstance_instance)

lemma getStream_after_addStream: "fst (Log_getStream name (Log_addStream name d w)) = d"
  by (simp add: getStream_eq addStream_getInstance addStream_streams map_of_map_assign)

lemma removeStream_after_addStream: "fst (Log_removeStream name (Log_addStream name d w)) = d"
  by (simp add: removeStream_eq Let_def addStream_getInstance addStream_streams map_of_map_assign)

lemma getStream_after_removeStream:
  "fst (Log_getStream name (snd (Log_removeStream name w))) = nullptr"
proof -
  let ?w1 = "snd (Log_removeStream name w)"
  have g: "Log_getInstance ?w1 = ?w1"
    using removeStream_instance [of name w] by (auto simp add: getInstance_Some)
  show ?thesis
    by (simp add: getStream_eq g removeStream_streams map_of_map_erase nullptr_def
        split: option.split)
qed

lemma Stream_call_instance: "Stream_call lt p e w = Inr w' \<Longrightarrow> Log_instance w' = Log_instance w"
  by (auto simp add: Stream_call_def Let_def handle_frame split: option.splits if_splits)

lemma for_streams_instance: "for_streams lt ms e w = Inr w' \<Longrightarrow> Log_instance w' = Log_instance w"
proof (induction ms arbitrary: w)
  case Nil
  then show ?case by simp
next
  case (Cons x ms)
  then show ?case
    by (auto split: sum.splits dest: Stream_call_instance)
qed

lemma getInstance_streams:
  "inst_streams (Log_getInstance w) =
     (case Log_instance w of
        None \<Rightarrow> [(''defaultConsole'', Suc (brk w)), (''defaultTextFile'', brk w)]
      | Some inst \<Rightarrow> inst_streams w)"
  by (simp add: getInstance_None getInstance_Some inst_streams_def split: option.split)

lemma inst_streams_empty: "Log_instance w = None \<Longrightarrow> inst_streams w = []"
  by (simp add: inst_streams_def)

lemma Log_log_streams:
  "Log_log sd lt now lv m src cd w = Inr w' \<Longrightarrow>
   inst_streams w' = inst_streams w \<or> inst_streams w' = inst_streams (Log_getInstance w)"
  by (auto simp add: Log_log_def Let_def inst_streams_def split: if_splits
      dest!: for_streams_instance)

lemma exec_streams:
  assumes "exec sd lt x w = Inr w'"
  shows "inst_streams w' = inst_streams w \<or> inst_streams w' = inst_streams (Log_getInstance w)
     \<or> (\<exists>name p. x = AddStream name p \<and>
            inst_streams w' = map_assign name p (inst_streams (Log_getInstance w)))
     \<or> (\<exists>name. inst_streams w' = map_erase name (inst_streams (Log_getInstance w)))"
proof (cases x)
  case (AddStream name p)
  with assms show ?thesis by (auto simp add: addStream_streams)
next
  case (RemoveStream name)
  with assms have "inst_streams w' = map_erase name (inst_streams (Log_getInstance w))
      \<or> inst_streams w' = inst_streams (Log_getInstance w)"
    by (auto simp add: removeStream_streams)
  then show ?thesis by blast
next
  case (GetStream name)
  with assms show ?thesis by (auto simp add: getStream_eq)
next
  case (ForceDebug b)
  with assms show ?thesis by (auto simp add: Log_forceDebug_def inst_streams_def)
next
  case (LogEvent lv m src cd now)
  with assms show ?thesis using Log_log_streams [of sd lt now lv m src cd w w'] by auto
next
  case (NewStream s)
  with assms show ?thesis by (auto simp add: new_Stream_def inst_streams_def)
next
  case (SetLevels p lvs)
  with assms show ?thesis
    by (auto simp add: Stream_setLevels_def inst_streams_def split: option.splits)
next
  case (Delete p)
  with assms show ?thesis
    by (auto simp add: delete_Stream_def inst_streams_def split: option.splits if_splits)
qed

lemma names_ordered_getInstance:
  "names_ordered (inst_streams w) \<Longrightarrow> names_ordered (inst_streams (Log_getInstance w))"
  by (simp add: getInstance_streams names_ordered_def split: option.split)

lemma exec_names_ordered:
  assumes "exec sd lt x w = Inr w'" and "names_ordered (inst_streams w)"
  shows "names_ordered (inst_streams w')"
  using exec_streams [OF assms(1)] names_ordered_getInstance [OF assms(2)] assms(2)
  by (auto simp add: names_ordered_map_assign names_ordered_map_erase)

lemma run_names_ordered:
  "run sd lt ops w = Inr w' \<Longrightarrow> names_ordered (inst_streams w) \<Longrightarrow> names_ordered (inst_streams w')"
proof (induction ops arbitrary: w)
  case Nil
  then show ?case by simp
next
  case (Cons x ops)
  then show ?case
    by (auto split: sum.splits dest: exec_names_ordered)
qed

lemma initial_names_ordered: "names_ordered (inst_streams (initial fs un))"
  by (simp add: names_ordered_def inst_streams_def initial_def)

lemma reachable_names_ordered:
  "run sd lt ops (initial fs un) = Inr w \<Longrightarrow> names_ordered (inst_streams w)"
  using run_names_ordered initial_names_ordered by blast

lemma unregistered_getInstance:
  assumes "\<not> reserved name" and "unregistered name w"
  shows "unregistered name (Log_getInstance w)"
  using assms by (simp add: unregistered_def reserved_def getInstance_streams split: option.split)

lemma exec_unregistered:
  assumes x: "exec sd lt x w = Inr w'" and r: "\<not> reserved name"
    and a: "\<forall>p. x \<noteq> AddStream name p" and u: "unregistered name w"
  shows "unregistered name w'"
proof -
  have u0: "map_of (inst_streams (Log_getInstance w)) name = None"
    using unregistered_getInstance [OF r u] by (simp add: unregistered_def)
  have u1: "map_of (inst_streams w) name = None"
    using u by (simp add: unregistered_def)
  from exec_streams [OF x] consider
      "inst_streams w' = inst_streams w"
    | "inst_streams w' = inst_streams (Log_getInstance w)"
    | n p where "x = AddStream n p" "inst_streams w' = map_assign n p (inst_streams (Log_getInstance w))"
    | n where "inst_streams w' = map_erase n (inst_streams (Log_getInstance w))"
    by blast
  then show ?thesis
  proof cases
    case 1
    with u1 show ?thesis by (simp add: unregistered_def)
  next
    case 2
    with u0 show ?thesis by (simp add: unregistered_def)
  next
    case 3
    with a have "n \<noteq> name" by blast
    with 3 u0 show ?thesis by (simp add: unregistered_def map_of_map_assign)
  next
    case 4
    with u0 show ?thesis by (simp add: unregistered_def map_of_map_erase)
  qed
qed

lemma run_unregistered:
  assumes r: "\<not> reserved name"
  shows "run sd lt ops w = Inr w' \<Longrightarrow> \<forall>p. AddStream name p \<notin> set ops \<Longrightarrow>
         unregistered name w \<Longrightarrow> unregistered name w'"
proof (induction ops arbitrary: w)
  case Nil
  then show ?case by simp
next
  case (Cons x ops)
  from Cons.prems(1) obtain w1 where
    w1: "exec sd lt x w = Inr w1" "run sd lt ops w1 = Inr w'"
    by (auto split: sum.splits)
  from Cons.prems(2) have now: "\<forall>p. x \<noteq> AddStream name p"
    and rest: "\<forall>p. AddStream name p \<notin> set ops"
    by auto
  have "unregistered name w1"
    using w1(1) r now Cons.prems(3) by (rule exec_unregistered)
  with Cons.IH [OF w1(2) rest] show ?case .
qed

lemma never_registered:
  assumes run: "run sd lt ops (initial fs un) = Inr w"
    and r: "\<not> reserved name"
    and a: "\<forall>p. AddStream name p \<notin> set ops"
  shows "fst (Log_getStream name w) = nullptr"
proof -
  have "unregistered name (initial fs un)"
    by (simp add: unregistered_def inst_streams_def initial_def)
  with run a have "unregistered name w"
    by (rule run_unregistered [OF r])
  with r have "unregistered name (Log_getInstance w)"
    by (rule unregistered_getInstance)
  then show ?thesis
    by (simp add: getStream_eq unregistered_def)
qed

lemma filter_map_assign:
  "names_ordered m \<Longrightarrow> filter (\<lambda>x. fst x = k) (map_assign k v m) = [(k, v)]"
  unfolding names_ordered_def
proof (induction m)
  case Nil
  then show ?case by simp
next
  case (Cons x m)
  from Cons.prems have above: "\<forall>y \<in> set m. fst x < fst y"
    by auto
  show ?case
  proof (cases "k < fst x")
    case True
    with above have "\<forall>y \<in> set (x # m). fst y \<noteq> k"
      by auto
    then have "filter (\<lambda>x. fst x = k) (x # m) = []"
      by (simp only: filter_empty_conv)
    with True show ?thesis by simp
  next
    case False
    show ?thesis
    proof (cases "k = fst x")
      case True
      with above have "\<forall>y \<in> set m. fst y \<noteq> k"
        by auto
      then have "filter (\<lambda>x. fst x = k) m = []"
        by (simp only: filter_empty_conv)
      with True show ?thesis by simp
    next
      case neq: False
      with False Cons show ?thesis by auto
    qed
  qed
qed

text \<open>
  C5. \<open>getStream\<close> on a name that was never registered returns \<open>nullptr\<close>: in every state
  that a program reaches from the start of the process without calling \<open>addStream\<close> on
  the name, the name being none of the two default streams' names (which \<open>getInstance\<close>
  registers itself). In any state, \<open>getStream(name)\<close> right after \<open>addStream(name, d)\<close>
  returns \<open>d\<close>; \<open>removeStream(name)\<close> then returns \<open>d\<close>, and \<open>getStream(name)\<close> after it
  returns \<open>nullptr\<close>.
\<close>

theorem getStream_addStream_removeStream:
  "(run sd lt ops (initial fs un) = Inr w \<and> \<not> reserved name \<and>
      (\<forall>p. AddStream name p \<notin> set ops) \<longrightarrow> fst (Log_getStream name w) = nullptr)
   \<and> fst (Log_getStream name (Log_addStream name d w0)) = d
   \<and> fst (Log_removeStream name (Log_addStream name d w0)) = d
   \<and> fst (Log_getStream name (snd (Log_removeStream name (Log_addStream name d w0)))) = nullptr"
  using never_registered [of sd lt ops fs un w name]
  by (simp add: getStream_after_addStream removeStream_after_addStream
      getStream_after_removeStream)

theorem getStream_addStream_removeStream_witness:
  "\<not> reserved ''Target'' \<and>
   (case run False local_noon [GetStream ''Target'', NewStream TestStream_ctor] fresh_process of
      Inl err \<Rightarrow> False
    | Inr w \<Rightarrow>
        fst (Log_getStream ''Target'' w) = nullptr \<and>
        fst (Log_getStream ''Target'' (Log_addStream ''Target'' 3 w)) = 3 \<and>
        fst (Log_removeStream ''Target'' (Log_addStream ''Target'' 3 w)) = 3 \<and>
        fst (Log_getStream ''Target''
               (snd (Log_removeStream ''Target'' (Log_addStream ''Target'' 3 w)))) = nullptr)"
proof -
  let ?ops = "[GetStream ''Target'', NewStream TestStream_ctor]"
  let ?w = "snd (new_Stream TestStream_ctor (snd (Log_getStream ''Target'' fresh_process)))"
  have r: "run False local_noon ?ops (initial Map.empty {}) = Inr ?w"
    by (simp add: fresh_process_def)
  have n: "\<not> reserved ''Target''"
    by (simp add: reserved_def)
  have a: "\<forall>p. AddStream ''Target'' p \<notin> set ?ops"
    by simp
  from getStream_addStream_removeStream
    [where sd = False and lt = local_noon and ops = ?ops and fs = Map.empty and un = "{}"
      and w = ?w and name = "''Target''" and d = 3 and ?w0.0 = ?w] r n a
  show ?thesis
    by (simp add: fresh_process_def)
qed

text \<open>
  C9. In every state that a program reaches from the start of the process, no name
  stands twice in the registry. \<open>addStream\<close> on a name that is registered already is not
  an error; afterwards \<open>getStream(name)\<close> returns the new pointer, the registry has one
  entry of that name (the new one) and as many entries as before, the other names'
  entries are as they were, and no object is freed: the old association is dropped and
  nothing else happens.
\<close>

theorem registry_names_unique:
  assumes "run sd lt ops (initial fs un) = Inr w"
  shows "distinct (map fst (inst_streams w)) \<and>
    exec sd lt (AddStream name d') (Log_addStream name d w) =
      Inr (Log_addStream name d' (Log_addStream name d w)) \<and>
    fst (Log_getStream name (Log_addStream name d' (Log_addStream name d w))) = d' \<and>
    filter (\<lambda>x. fst x = name) (inst_streams (Log_addStream name d' (Log_addStream name d w))) =
      [(name, d')] \<and>
    distinct (map fst (inst_streams (Log_addStream name d' (Log_addStream name d w)))) \<and>
    length (inst_streams (Log_addStream name d' (Log_addStream name d w))) =
      length (inst_streams (Log_addStream name d w)) \<and>
    (n \<noteq> name \<longrightarrow>
       map_find n (inst_streams (Log_addStream name d' (Log_addStream name d w))) =
       map_find n (inst_streams (Log_addStream name d w))) \<and>
    heap (Log_addStream name d' (Log_addStream name d w)) = heap (Log_addStream name d w)"
proof -
  let ?w1 = "Log_addStream name d w"
  let ?w2 = "Log_addStream name d' ?w1"
  have ord: "names_ordered (inst_streams w)"
    using assms by (rule reachable_names_ordered)
  then have ord1: "names_ordered (inst_streams ?w1)"
    by (simp add: addStream_streams names_ordered_map_assign names_ordered_getInstance)
  then have ord2: "names_ordered (inst_streams ?w2)"
    by (simp add: addStream_streams addStream_getInstance names_ordered_map_assign)
  have s2: "inst_streams ?w2 = map_assign name d' (inst_streams ?w1)"
    by (simp add: addStream_streams addStream_getInstance)
  have present: "name \<in> fst ` set (inst_streams ?w1)"
    by (simp add: addStream_streams names_map_assign)
  have "length (inst_streams ?w2) = length (inst_streams ?w1)"
    unfolding s2 using ord1 present by (rule length_map_assign_present)
  moreover have "filter (\<lambda>x. fst x = name) (inst_streams ?w2) = [(name, d')]"
    unfolding s2 using ord1 by (rule filter_map_assign)
  moreover have "n \<noteq> name \<longrightarrow> map_find n (inst_streams ?w2) = map_find n (inst_streams ?w1)"
    by (simp add: s2 map_find_def map_of_map_assign)
  moreover have "heap ?w2 = heap ?w1"
    by (simp add: addStream_heap [of name d' ?w1] addStream_getInstance)
  ultimately show ?thesis
    using ord ord2
    by (simp add: names_ordered_distinct getStream_after_addStream)
qed

theorem registry_names_unique_witness:
  "(case run False local_noon [AddStream ''Test'' 1] fresh_process of
      Inl err \<Rightarrow> False
    | Inr w \<Rightarrow>
        distinct (map fst (inst_streams w)) \<and>
        fst (Log_getStream ''Test'' (Log_addStream ''Test'' 3 (Log_addStream ''Test'' 2 w))) = 3 \<and>
        inst_streams (Log_addStream ''Test'' 3 (Log_addStream ''Test'' 2 w)) =
          [(''Test'', 3), (''defaultConsole'', 2), (''defaultTextFile'', 1)])"
proof -
  let ?w = "Log_addStream ''Test'' 1 fresh_process"
  have r: "run False local_noon [AddStream ''Test'' 1] (initial Map.empty {}) = Inr ?w"
    by (simp add: fresh_process_def)
  have s: "inst_streams (Log_addStream ''Test'' 3 (Log_addStream ''Test'' 2 ?w)) =
      [(''Test'', 3), (''defaultConsole'', 2), (''defaultTextFile'', 1)]"
    by (simp add: addStream_streams addStream_getInstance getInstance_streams fresh_process_def
        initial_def)
  from registry_names_unique [OF r, of "''Test''" 3 2] s
  show ?thesis
    by (simp add: fresh_process_def)
qed

lemma ALL_LEVELS_is_union:
  "ALL_LEVELS =
     LEVELS_val DBG OR LEVELS_val INFO OR LEVELS_val WARNING OR LEVELS_val ERR OR
     LEVELS_val CRITICAL"
  by (simp add: ALL_LEVELS_def)

lemma ALL_LEVELS_accepts: "(ALL_LEVELS AND LEVELS_val lv) = LEVELS_val lv"
  by (cases lv) (simp_all add: ALL_LEVELS_def)

lemma Log_log_zero_setup:
  assumes none: "Log_instance w = None" and vis: "lv \<noteq> DBG \<or> sd \<or> showDebug w"
  shows "\<exists>w'. Log_log sd lt now lv m src cd w = Inr w' \<and>
     trace w' = trace w @
       [Called (Suc (brk w)) (Event_ctor lv m src cd now),
        Handled (Suc (brk w)) (Event_ctor lv m src cd now),
        Called (brk w) (Event_ctor lv m src cd now),
        Handled (brk w) (Event_ctor lv m src cd now)] \<and>
     cout w' = cout w @ Event_toString lt (Event_ctor lv m src cd now) \<and>
     (''log.txt'' \<notin> unwritable w \<longrightarrow>
        files w' ''log.txt'' =
          Some ((case files w ''log.txt'' of None \<Rightarrow> [] | Some c \<Rightarrow> c) @
                Event_toString lt (Event_ctor lv m src cd now)))"
proof -
  have lvl: "level (Event_ctor lv m src cd now) = lv"
    by (simp add: Event_ctor_def)
  show ?thesis
    unfolding Log_log_visible [OF vis] getInstance_streams getInstance_None [OF none]
    by (simp add: none inst_streams_def Stream_call_def handle_def Let_def lvl ALL_LEVELS_accepts
        TextFileStream_ctor_def ConsoleStream_ctor_def ConsoleStream_handle_def
        TextFileStream_handle_def fstream_open_def fstream_write_def fstream_close_def)
qed

text \<open>
  C8, as stated, fails: the first call of the process may be a \<open>log\<close> with the level DBG
  in a build without \<open>SHOW_DEBUG\<close>, or a \<open>forceDebug\<close>; after either, \<open>instance\<close> is still
  \<open>nullptr\<close>.
\<close>

theorem first_use_creates_registry_counterexample:
  "Log_instance fresh_process = None \<and>
   Log_log False local_noon 0 DBG ''dbg_msg'' [] [] fresh_process = Inr fresh_process \<and>
   Log_instance (Log_forceDebug False fresh_process) = None"
  by (simp add: fresh_process_def initial_def Log_log_def Log_forceDebug_def)

text \<open>
  C8, amended. \<open>getInstance\<close>, on its first call, creates the registry with exactly two
  entries, \<open>defaultConsole\<close> and \<open>defaultTextFile\<close>, which point to a new console stream and
  a new file stream for \<open>log.txt\<close>, both with the mask \<open>ALL_LEVELS\<close>, which is 31, the
  union of the five levels. \<open>getStream\<close>, \<open>addStream\<close>, \<open>removeStream\<close> and every \<open>log\<close> that
  debug gating does not suppress start with \<open>getInstance\<close>: they act on the seeded
  registry. So a first \<open>log\<close> that is not suppressed invokes the handlers of both default
  streams: the rendered event is written to the console and, when \<open>log.txt\<close> can be
  opened, appended to it.
\<close>

theorem first_use_creates_registry:
  "(Log_instance w = None \<longrightarrow>
      inst_streams (Log_getInstance w) =
        [(''defaultConsole'', Suc (brk w)), (''defaultTextFile'', brk w)] \<and>
      heap (Log_getInstance w) (brk w) =
        Some \<lparr>levels = ALL_LEVELS, derived = TextFileStream ''log.txt''\<rparr> \<and>
      heap (Log_getInstance w) (Suc (brk w)) =
        Some \<lparr>levels = ALL_LEVELS, derived = ConsoleStream\<rparr>)
   \<and> ALL_LEVELS = 31
   \<and> ALL_LEVELS =
       LEVELS_val DBG OR LEVELS_val INFO OR LEVELS_val WARNING OR LEVELS_val ERR OR
       LEVELS_val CRITICAL
   \<and> Log_getStream name w = Log_getStream name (Log_getInstance w)
   \<and> Log_addStream name p w = Log_addStream name p (Log_getInstance w)
   \<and> Log_removeStream name w = Log_removeStream name (Log_getInstance w)
   \<and> (lv \<noteq> DBG \<or> sd \<or> showDebug w \<longrightarrow>
        Log_log sd lt now lv m src cd w = Log_log sd lt now lv m src cd (Log_getInstance w))
   \<and> (Log_instance w = None \<and> (lv \<noteq> DBG \<or> sd \<or> showDebug w) \<longrightarrow>
        (\<exists>w'. Log_log sd lt now lv m src cd w = Inr w' \<and>
           handled_ptrs (drop (length (trace w)) (trace w')) = [Suc (brk w), brk w] \<and>
           cout w' = cout w @ Event_toString lt (Event_ctor lv m src cd now) \<and>
           (''log.txt'' \<notin> unwritable w \<longrightarrow>
              files w' ''log.txt'' =
                Some ((case files w ''log.txt'' of None \<Rightarrow> [] | Some c \<Rightarrow> c) @
                      Event_toString lt (Event_ctor lv m src cd now)))))"
proof -
  have seeded: "inst_streams (Log_getInstance w) =
        [(''defaultConsole'', Suc (brk w)), (''defaultTextFile'', brk w)] \<and>
      heap (Log_getInstance w) (brk w) =
        Some \<lparr>levels = ALL_LEVELS, derived = TextFileStream ''log.txt''\<rparr> \<and>
      heap (Log_getInstance w) (Suc (brk w)) =
        Some \<lparr>levels = ALL_LEVELS, derived = ConsoleStream\<rparr>"
    if "Log_instance w = None"
    using that
    by (simp add: getInstance_None inst_streams_def TextFileStream_ctor_def ConsoleStream_ctor_def)
  have ops: "Log_getStream name w = Log_getStream name (Log_getInstance w)"
    "Log_addStream name p w = Log_addStream name p (Log_getInstance w)"
    "Log_removeStream name w = Log_removeStream name (Log_getInstance w)"
    by (simp_all add: Log_getStream_def Log_addStream_def Log_removeStream_def getInstance_idem)
  have logs: "Log_log sd lt now lv m src cd w = Log_log sd lt now lv m src cd (Log_getInstance w)"
    if "lv \<noteq> DBG \<or> sd \<or> showDebug w"
  proof -
    from that have "lv \<noteq> DBG \<or> sd \<or> showDebug (Log_getInstance w)"
      by (simp add: getInstance_frame)
    with that show ?thesis
      by (simp only: Log_log_visible getInstance_idem)
  qed
  have zero: "\<exists>w'. Log_log sd lt now lv m src cd w = Inr w' \<and>
           handled_ptrs (drop (length (trace w)) (trace w')) = [Suc (brk w), brk w] \<and>
           cout w' = cout w @ Event_toString lt (Event_ctor lv m src cd now) \<and>
           (''log.txt'' \<notin> unwritable w \<longrightarrow>
              files w' ''log.txt'' =
                Some ((case files w ''log.txt'' of None \<Rightarrow> [] | Some c \<Rightarrow> c) @
                      Event_toString lt (Event_ctor lv m src cd now)))"
    if "Log_instance w = None" and "lv \<noteq> DBG \<or> sd \<or> showDebug w"
    using Log_log_zero_setup [OF that, of lt now m src cd] by auto
  from seeded ops logs zero ALL_LEVELS_is_union show ?thesis
    by (simp add: ALL_LEVELS_def)
qed

theorem first_use_creates_registry_witness:
  "Log_instance fresh_process = None \<and>
   inst_streams (Log_getInstance fresh_process) = [(''defaultConsole'', 2), (''defaultTextFile'', 1)] \<and>
   heap (Log_getInstance fresh_process) 1 =
     Some \<lparr>levels = 31, derived = TextFileStream ''log.txt''\<rparr> \<and>
   heap (Log_getInstance fresh_process) 2 = Some \<lparr>levels = 31, derived = ConsoleStream\<rparr> \<and>
   (case Log_log False local_noon 0 INFO ''info_msg'' [] [] fresh_process of
      Inl err \<Rightarrow> False
    | Inr w' \<Rightarrow>
        handled_ptrs (trace w') = [2, 1] \<and>
        cout w' = ''   2000/01/01/12:00:00 - info_msg'' \<and>
        files w' ''log.txt'' = Some ''   2000/01/01/12:00:00 - info_msg'')"
proof -
  let ?e = "Event_ctor INFO ''info_msg'' [] [] 0"
  have str: "Event_toString local_noon ?e = ''   2000/01/01/12:00:00 - info_msg''"
    using put_time_stamp [OF calendar_noon_2000]
    by (simp add: Event_toString_layout header_def symbol_of_def code_segment_def
        source_segment_def Event_ctor_def stamp_noon_2000 local_noon_def)
  have f: "Log_instance fresh_process = None" "brk fresh_process = 1" "trace fresh_process = []"
    "cout fresh_process = []" "files fresh_process ''log.txt'' = None"
    "''log.txt'' \<notin> unwritable fresh_process"
    by (simp_all add: fresh_process_def initial_def)
  note th = first_use_creates_registry
    [where w = fresh_process and lv = INFO and sd = False and lt = local_noon and now = 0
      and m = "''info_msg''" and src = "[]" and cd = "[]" and name = "[]" and p = 0]
  from th f have a: "inst_streams (Log_getInstance fresh_process) =
      [(''defaultConsole'', 2), (''defaultTextFile'', 1)]"
    "heap (Log_getInstance fresh_process) 1 =
      Some \<lparr>levels = 31, derived = TextFileStream ''log.txt''\<rparr>"
    "heap (Log_getInstance fresh_process) 2 = Some \<lparr>levels = 31, derived = ConsoleStream\<rparr>"
    by (simp_all add: ALL_LEVELS_def numeral_2_eq_2)
  have v: "INFO \<noteq> DBG \<or> False \<or> showDebug fresh_process"
    by simp
  from th f v obtain w' where
    "Log_log False local_noon 0 INFO ''info_msg'' [] [] fresh_process = Inr w'"
    "handled_ptrs (drop (length (trace fresh_process)) (trace w')) =
       [Suc (brk fresh_process), brk fresh_process]"
    "cout w' = cout fresh_process @ Event_toString local_noon ?e"
    "files w' ''log.txt'' =
       Some ((case files fresh_process ''log.txt'' of None \<Rightarrow> [] | Some c \<Rightarrow> c) @
             Event_toString local_noon ?e)"
    by blast
  with a f show ?thesis
    by (simp add: str numeral_2_eq_2)
qed

text \<open>
  C6, as stated, fails: the default argument of the constructor is \<open>"Log.txt"\<close>, with a
  capital letter, as the constructor's comment says.
\<close>

theorem TextFileStream_default_name_counterexample:
  "derived TextFileStream_ctor_default \<noteq> TextFileStream ''log.txt''"
  by (simp add: TextFileStream_ctor_default_def TextFileStream_ctor_def
      TextFileStream_fileName_default_def)

text \<open>
  C6, amended. A \<open>TextFileStream\<close> constructed without a file name holds the file name
  \<open>"Log.txt"\<close> (and the mask \<open>ALL_LEVELS\<close>). The registry's default file stream is not
  constructed that way: \<open>getInstance\<close> passes the file name \<open>"log.txt"\<close>.
\<close>

theorem TextFileStream_default_name:
  "derived TextFileStream_ctor_default = TextFileStream ''Log.txt''
   \<and> levels TextFileStream_ctor_default = ALL_LEVELS
   \<and> (Log_instance w = None \<longrightarrow>
        map_find ''defaultTextFile'' (inst_streams (Log_getInstance w)) = Some (brk w) \<and>
        heap (Log_getInstance w) (brk w) = Some (TextFileStream_ctor ''log.txt''))"
  by (simp add: TextFileStream_ctor_default_def TextFileStream_ctor_def
      TextFileStream_fileName_default_def getInstance_None inst_streams_def map_find_def)

theorem TextFileStream_default_name_witness:
  "Log_instance fresh_process = None \<and>
   derived TextFileStream_ctor_default = TextFileStream ''Log.txt'' \<and>
   map_find ''defaultTextFile'' (inst_streams (Log_getInstance fresh_process)) = Some 1 \<and>
   heap (Log_getInstance fresh_process) 1 =
     Some \<lparr>levels = ALL_LEVELS, derived = TextFileStream ''log.txt''\<rparr>"
proof -
  have f: "Log_instance fresh_process = None" "brk fresh_process = 1"
    by (simp_all add: fresh_process_def initial_def)
  from TextFileStream_default_name [of fresh_process] f show ?thesis
    by (simp add: TextFileStream_ctor_def)
qed

end
